theory Spec2Isabelle
  imports Complex_Main "HOL-Library.Sublist"
begin

section \<open>Data model (types of the client)\<close>

text \<open>
  The fork lifecycle states of \<^verbatim>\<open>ForkStatus\<close> and the model tiers, in the order of the
  type declarations.
\<close>

datatype ForkStatus = Queued | Spawning | Running | Completed | Failed | Cancelled | Terminated

datatype ModelTier = TierFast | TierDefault | TierHeavy

text \<open>
  An element of a fork's \<^verbatim>\<open>output\<close> array (field \<open>fork_out\<close> below; the id field
  is \<open>fork_id\<close>). The declared element type is
  \<^verbatim>\<open>{ time: Date; text: string }\<close>; the merge of the two registries also accepts a bare
  string coming from the Gateway and turns it into a line, so both shapes are kept.
  Times are milliseconds since the epoch.
\<close>

datatype OutputEntry = OutputLine int string | RawText string

record Fork =
  fork_id :: string
  agent :: string
  model :: string
  modelTier :: ModelTier
  status :: ForkStatus
  task :: string
  prompt :: string
  startedAt :: int
  completedAt :: "int option"
  duration :: "int option"
  progress :: real
  pid :: "int option"
  fork_out :: "OutputEntry list"
  includeSummary :: bool
  workflowId :: "string option"

record QueueItem =
  qi_id :: int
  qi_agent :: string
  qi_modelTier :: ModelTier
  qi_prompt :: string
  qi_includeSummary :: bool

record WorkflowFork =
  wf_agent :: string
  wf_modelTier :: ModelTier
  wf_prompt :: string

record WorkflowTemplate =
  wt_id :: string
  wt_name :: string
  wt_forks :: "WorkflowFork list"

datatype LineType = System | Info | Success | Error | Warning | Spawn | Workflow

record TerminalLine =
  tl_type :: LineType
  tl_text :: string
  tl_time :: int

record AgentConfig =
  cfg_name :: string
  cfg_models :: "ModelTier \<Rightarrow> string"

record ForkCreateRequest =
  req_agent :: string
  req_modelTier :: ModelTier
  req_prompt :: string
  req_includeSummary :: bool
  req_autoFocus :: bool

text \<open>The payloads of the push channel, one constructor per message type.\<close>

datatype WebSocketMessage =
    fork_update Fork
  | fork_output string string
  | fork_completed string
  | fork_failed string string
  | config_update

text \<open>
  The state of the component and of the \<^verbatim>\<open>useForks\<close> hook it embeds: \<open>apiForks\<close> is the
  hook's \<^verbatim>\<open>forks\<close> list (the Gateway side), \<open>localForks\<close> the list of forks created by
  this client, \<open>forkIdCounter\<close> the counter behind the placeholder ids, and the launch
  panel's inputs (\<open>promptInput\<close>, \<open>selModelTier\<close> and \<open>selIncludeSummary\<close> are the states
  \<^verbatim>\<open>prompt\<close>, \<^verbatim>\<open>modelTier\<close> and \<^verbatim>\<open>includeSummary\<close>) and the two settings the scheduler
  reads. \<open>maxConcurrent\<close> is any integer, as the settings form stores what it parses.
\<close>

record AppState =
  apiForks :: "Fork list"
  localForks :: "Fork list"
  forkIdCounter :: nat
  terminalOutput :: "TerminalLine list"
  multiForkQueue :: "QueueItem list"
  maxConcurrent :: int
  autoFocus :: bool
  selectedAgent :: string
  selModelTier :: ModelTier
  promptInput :: string
  selIncludeSummary :: bool

section \<open>Numbers in template strings\<close>

definition digit_char :: "nat \<Rightarrow> char" where
  "digit_char d = char_of (48 + d)"

fun string_of_nat :: "nat \<Rightarrow> string" where
  "string_of_nat n =
     (if n < 10 then [digit_char n] else string_of_nat (n div 10) @ [digit_char (n mod 10)])"

declare string_of_nat.simps [simp del]

definition string_of_int :: "int \<Rightarrow> string" where
  "string_of_int i = (if i < 0 then ''-'' @ string_of_nat (nat (- i)) else string_of_nat (nat i))"

section \<open>Activity log\<close>

text \<open>
  \<^verbatim>\<open>setTerminalOutput(prev => [...prev.slice(-100), { type, text: `> ${text}`, time: new Date() }])\<close>.
  \<^verbatim>\<open>slice(-100)\<close> keeps the last 100 entries (all of them when there are fewer).
\<close>

definition terminal_append :: "int \<Rightarrow> LineType \<Rightarrow> string \<Rightarrow> TerminalLine list \<Rightarrow> TerminalLine list" where
  "terminal_append now ty txt prev =
     drop (length prev - 100) prev @ [\<lparr>tl_type = ty, tl_text = ''> '' @ txt, tl_time = now\<rparr>]"

definition addTerminalLine :: "int \<Rightarrow> LineType \<Rightarrow> string \<Rightarrow> AppState \<Rightarrow> AppState" where
  "addTerminalLine now ty txt st =
     st\<lparr>terminalOutput := terminal_append now ty txt (terminalOutput st)\<rparr>"

text \<open>The three lines the log starts with.\<close>

definition initial_terminal :: "int \<Rightarrow> TerminalLine list" where
  "initial_terminal now =
     [\<lparr>tl_type = System, tl_text = ''> Fork Terminal v2.0.0 initialized'', tl_time = now\<rparr>,
      \<lparr>tl_type = System, tl_text = ''> Agent orchestration layer online'', tl_time = now\<rparr>,
      \<lparr>tl_type = Info, tl_text = ''> Ready to spawn parallel agents...'', tl_time = now\<rparr>]"

text \<open>A run of calls, each with its own time, type and text.\<close>

fun terminal_appends :: "(int \<times> LineType \<times> string) list \<Rightarrow> TerminalLine list \<Rightarrow> TerminalLine list" where
  "terminal_appends [] prev = prev"
| "terminal_appends ((now, ty, txt) # cs) prev =
     terminal_appends cs (terminal_append now ty txt prev)"

section \<open>Event channel: reconnection\<close>

record ForkWebSocket =
  reconnectAttempts :: nat

text \<open>The two private fields that are initialised and never assigned.\<close>

definition maxReconnectAttempts :: nat where
  "maxReconnectAttempts = 5"

definition reconnectDelay :: nat where
  "reconnectDelay = 1000"

definition new_ForkWebSocket :: ForkWebSocket where
  "new_ForkWebSocket = \<lparr>reconnectAttempts = 0\<rparr>"

text \<open>
  \<^verbatim>\<open>attemptReconnect\<close> returns the socket and the delay of the timer it sets, if it sets one.
\<close>

definition attemptReconnect :: "ForkWebSocket \<Rightarrow> ForkWebSocket \<times> nat option" where
  "attemptReconnect ws =
     (if reconnectAttempts ws < maxReconnectAttempts then
        (let ws' = ws\<lparr>reconnectAttempts := reconnectAttempts ws + 1\<rparr>;
             delay = reconnectDelay * 2 ^ (reconnectAttempts ws' - 1)
         in (ws', Some delay))
      else (ws, None))"

definition onopen :: "ForkWebSocket \<Rightarrow> ForkWebSocket" where
  "onopen ws = ws\<lparr>reconnectAttempts := 0\<rparr>"

definition onclose :: "ForkWebSocket \<Rightarrow> ForkWebSocket \<times> nat option" where
  "onclose ws = attemptReconnect ws"

text \<open>
  What the transport reports after each \<^verbatim>\<open>connect()\<close>: the connection opened, or it closed
  (an unexpected closure, or an attempt that failed). \<open>channel_run\<close> folds a history of
  such reports and collects the delays of the timers set.
\<close>

datatype ChannelEvent = Opened | Closed

fun channel_run :: "ChannelEvent list \<Rightarrow> ForkWebSocket \<Rightarrow> ForkWebSocket \<times> nat list" where
  "channel_run [] ws = (ws, [])"
| "channel_run (Opened # es) ws = channel_run es (onopen ws)"
| "channel_run (Closed # es) ws =
     (case onclose ws of
        (ws', None) \<Rightarrow> channel_run es ws'
      | (ws', Some d) \<Rightarrow> (case channel_run es ws' of (ws'', ds) \<Rightarrow> (ws'', d # ds)))"

section \<open>Admission check\<close>

text \<open>
  \<^verbatim>\<open>canLaunchFork\<close> reads \<^verbatim>\<open>localForks\<close> and \<^verbatim>\<open>settings.maxConcurrent\<close> of the render
  that created the callback.
\<close>

definition is_active :: "ForkStatus \<Rightarrow> bool" where
  "is_active s = (s \<in> set [Running, Spawning, Queued])"

definition canLaunchFork :: "AppState \<Rightarrow> bool" where
  "canLaunchFork st =
     (let runningCount = length (filter (\<lambda>f. is_active (status f)) (localForks st))
      in int runningCount < maxConcurrent st)"

section \<open>Environment\<close>

text \<open>
  Everything the client reads from outside: the agent table of the render, the Gateway's
  answers to create and terminate requests, and the draws of \<^verbatim>\<open>Math.random()\<close>. Each is
  indexed by the time of the call, so two calls may be answered differently.
\<close>

record TickDraw =
  draw_increment :: real
  draw_output :: real
  draw_text :: string
  draw_status :: real

text \<open>
  What \<^verbatim>\<open>agents[name]\<close> finds in the agent table, a plain object: nothing, an entry of the
  table, or a member inherited from \<^verbatim>\<open>Object.prototype\<close> (\<^verbatim>\<open>constructor\<close>, \<^verbatim>\<open>toString\<close>
  and the like), which is not a configuration; the string is its \<^verbatim>\<open>name\<close> property, empty
  when it has none.
\<close>

datatype AgentLookup = Missing | Config AgentConfig | Inherited string

datatype error = TypeError

record Env =
  agents :: "string \<Rightarrow> AgentLookup"
  gateway_create :: "int \<Rightarrow> ForkCreateRequest \<Rightarrow> Fork option"
  gateway_terminate :: "int \<Rightarrow> string \<Rightarrow> bool"
  random_pid :: "int \<Rightarrow> int"
  random_tick :: "int \<Rightarrow> nat \<Rightarrow> TickDraw"

section \<open>The Gateway-side list (the hook)\<close>

text \<open>
  The four channel handlers, \<^verbatim>\<open>createFork\<close>, \<^verbatim>\<open>terminateFork\<close> and \<^verbatim>\<open>fetchForks\<close>.
  Each handler is \<^verbatim>\<open>setForks(prev => prev.map(...))\<close>; no handler is registered for
  \<^verbatim>\<open>config_update\<close>.
\<close>

definition on_fork_update :: "Fork \<Rightarrow> Fork list \<Rightarrow> Fork list" where
  "on_fork_update updatedFork prev =
     map (\<lambda>f. if fork_id f = fork_id updatedFork then updatedFork else f) prev"

definition on_fork_output :: "int \<Rightarrow> string \<Rightarrow> string \<Rightarrow> Fork list \<Rightarrow> Fork list" where
  "on_fork_output now forkId out prev =
     map (\<lambda>f. if fork_id f = forkId then f\<lparr>fork_out := fork_out f @ [OutputLine now out]\<rparr> else f) prev"

definition on_fork_completed :: "int \<Rightarrow> string \<Rightarrow> Fork list \<Rightarrow> Fork list" where
  "on_fork_completed now forkId prev =
     map (\<lambda>f. if fork_id f = forkId
              then f\<lparr>status := Completed, progress := 100, completedAt := Some now\<rparr> else f) prev"

definition on_fork_failed :: "int \<Rightarrow> string \<Rightarrow> string \<Rightarrow> Fork list \<Rightarrow> Fork list" where
  "on_fork_failed now forkId forkError prev =
     map (\<lambda>f. if fork_id f = forkId
              then f\<lparr>status := Failed, fork_out := fork_out f @ [OutputLine now (''Error: '' @ forkError)]\<rparr>
              else f) prev"

fun on_message :: "int \<Rightarrow> WebSocketMessage \<Rightarrow> AppState \<Rightarrow> AppState" where
  "on_message now (fork_update updatedFork) st = st\<lparr>apiForks := on_fork_update updatedFork (apiForks st)\<rparr>"
| "on_message now (fork_output forkId out) st = st\<lparr>apiForks := on_fork_output now forkId out (apiForks st)\<rparr>"
| "on_message now (fork_completed forkId) st = st\<lparr>apiForks := on_fork_completed now forkId (apiForks st)\<rparr>"
| "on_message now (fork_failed forkId forkError) st =
     st\<lparr>apiForks := on_fork_failed now forkId forkError (apiForks st)\<rparr>"
| "on_message now config_update st = st"

definition fetchForks :: "Fork list option \<Rightarrow> AppState \<Rightarrow> AppState" where
  "fetchForks result st = (case result of Some data \<Rightarrow> st\<lparr>apiForks := data\<rparr> | None \<Rightarrow> st)"

definition apiCreateFork :: "Fork option \<Rightarrow> AppState \<Rightarrow> AppState" where
  "apiCreateFork result st = (case result of Some data \<Rightarrow> st\<lparr>apiForks := data # apiForks st\<rparr> | None \<Rightarrow> st)"

definition terminateFork :: "bool \<Rightarrow> string \<Rightarrow> AppState \<Rightarrow> AppState" where
  "terminateFork success forkId st =
     (if success
      then st\<lparr>apiForks := map (\<lambda>f. if fork_id f = forkId then f\<lparr>status := Terminated\<rparr> else f) (apiForks st)\<rparr>
      else st)"

section \<open>Creating and launching forks\<close>

definition local_id :: "nat \<Rightarrow> string" where
  "local_id n = ''local-'' @ string_of_nat n"

record LaunchOptions =
  opt_includeSummary :: "bool option"
  opt_workflowId :: "string option"

text \<open>
  \<^verbatim>\<open>agentConfig?.models[tier] || 'N/A'\<close>: a name the table does not know gives N/A, and so
  does an entry whose model name is empty; a name that finds an inherited member has no
  \<^verbatim>\<open>models\<close>, and indexing it throws.
\<close>

definition model_name :: "(string \<Rightarrow> AgentLookup) \<Rightarrow> string \<Rightarrow> ModelTier \<Rightarrow> error + string" where
  "model_name ags ag tier =
     (case ags ag of
        Missing \<Rightarrow> Inr ''N/A''
      | Config cfg \<Rightarrow> Inr (if cfg_models cfg tier = [] then ''N/A'' else cfg_models cfg tier)
      | Inherited n \<Rightarrow> Inl TypeError)"

definition lookup_throws :: "Env \<Rightarrow> string \<Rightarrow> bool" where
  "lookup_throws env ag = (case agents env ag of Inherited n \<Rightarrow> True | _ \<Rightarrow> False)"

text \<open>
  \<^verbatim>\<open>forkIdCounter.current++\<close> on a JavaScript number: the counter goes up by one until it
  reaches 2^53 and stays there, since 2^53 + 1 is not a double.
\<close>

definition next_counter :: "nat \<Rightarrow> nat" where
  "next_counter c = (if c < 9007199254740992 then c + 1 else c)"

text \<open>
  \<^verbatim>\<open>createLocalFork\<close> takes the next placeholder id and advances the counter
  (\<^verbatim>\<open>`local-${forkIdCounter.current++}`\<close>), then builds the record; it does not touch the
  registry. When the agent lookup throws, the counter has already advanced and no record
  is returned.
\<close>

definition createLocalFork ::
  "Env \<Rightarrow> int \<Rightarrow> string \<Rightarrow> ModelTier \<Rightarrow> string \<Rightarrow> LaunchOptions \<Rightarrow> AppState \<Rightarrow> (error + Fork) \<times> AppState" where
  "createLocalFork env now ag tier taskPrompt options st =
     (case model_name (agents env) ag tier of
        Inl e \<Rightarrow> Inl e
      | Inr m \<Rightarrow>
          Inr \<lparr>fork_id = local_id (forkIdCounter st),
               agent = ag,
               model = m,
               modelTier = tier,
               status = Queued,
               task = taskPrompt,
               prompt = taskPrompt,
               startedAt = now,
               completedAt = None,
               duration = None,
               progress = 0,
               pid = None,
               fork_out = [],
               includeSummary = (case opt_includeSummary options of Some b \<Rightarrow> b | None \<Rightarrow> False),
               workflowId = opt_workflowId options\<rparr>,
      st\<lparr>forkIdCounter := next_counter (forkIdCounter st)\<rparr>)"

definition check_mark :: string where
  "check_mark = [CHR 0xE2, CHR 0x9C, CHR 0x93]"

definition ballot_x :: string where
  "ballot_x = [CHR 0xE2, CHR 0x9C, CHR 0x97]"

text \<open>\<^verbatim>\<open>agentConfig?.name || fork.agent\<close>.\<close>

definition agent_label :: "(string \<Rightarrow> AgentLookup) \<Rightarrow> string \<Rightarrow> string" where
  "agent_label ags ag =
     (case ags ag of
        Missing \<Rightarrow> ag
      | Config cfg \<Rightarrow> (if cfg_name cfg = [] then ag else cfg_name cfg)
      | Inherited n \<Rightarrow> (if n = [] then ag else n))"

definition request_of :: "AppState \<Rightarrow> Fork \<Rightarrow> ForkCreateRequest" where
  "request_of snap fork =
     \<lparr>req_agent = agent fork, req_modelTier = modelTier fork, req_prompt = prompt fork,
      req_includeSummary = includeSummary fork, req_autoFocus = autoFocus snap\<rparr>"

text \<open>
  \<^verbatim>\<open>launchFork\<close> up to its \<^verbatim>\<open>await\<close>. The callback is a closure: \<^verbatim>\<open>canLaunchFork\<close> and the
  settings it reads belong to the render in which the callback was created (\<open>snap\<close>),
  while each \<^verbatim>\<open>setLocalForks(prev => ...)\<close> applies to the registry as it is when the
  update runs (\<open>st\<close>). The result carries the create request sent to the Gateway, if one is.
  (The 60 of the task line counts bytes here and UTF-16 units in the source; the two agree
  on ASCII tasks, and the line is read by no other operation.)
\<close>

definition launchFork_begin ::
  "Env \<Rightarrow> AppState \<Rightarrow> int \<Rightarrow> Fork \<Rightarrow> AppState \<Rightarrow> AppState \<times> ForkCreateRequest option" where
  "launchFork_begin env snap now fork st =
     (if \<not> canLaunchFork snap then
        (addTerminalLine now Warning
           (''Max concurrent forks ('' @ string_of_int (maxConcurrent snap) @ '') reached. Waiting...'') st,
         None)
      else
        (let st1 = st\<lparr>localForks :=
                      map (\<lambda>f. if fork_id f = fork_id fork
                               then f\<lparr>status := Spawning, startedAt := now\<rparr> else f) (localForks st)\<rparr>;
             st2 = addTerminalLine now Spawn
                     (''Spawning '' @ agent_label (agents env) (agent fork) @ '' ['' @ model fork @ '']...'') st1;
             st3 = addTerminalLine now Info
                     (''Task: '' @ [CHR 0x22] @ take 60 (task fork)
                        @ (if length (task fork) > 60 then ''...'' else []) @ [CHR 0x22]) st2
         in (st3, Some (request_of snap fork))))"

text \<open>
  The rest of \<^verbatim>\<open>launchFork\<close>, run when the Gateway has answered: \<open>result\<close> is the fork the
  Gateway returned, or \<open>None\<close> when the call failed. \<^verbatim>\<open>result.pid || random\<close> takes the
  random number when the pid is missing or 0.
\<close>

definition launchFork_resolve :: "Env \<Rightarrow> int \<Rightarrow> Fork \<Rightarrow> Fork option \<Rightarrow> AppState \<Rightarrow> AppState" where
  "launchFork_resolve env now fork result st =
     (case result of
        Some r \<Rightarrow>
          addTerminalLine now Success
            (check_mark @ '' Fork #'' @ fork_id r @ '' launched [PID: ''
               @ (case pid r of None \<Rightarrow> ''N/A'' | Some p \<Rightarrow> (if p = 0 then ''N/A'' else string_of_int p)) @ '']'')
            (st\<lparr>localForks :=
                 map (\<lambda>f. if fork_id f = fork_id fork
                          then f\<lparr>fork_id := fork_id r, status := Running, progress := 5,
                                 pid := Some (case pid r of None \<Rightarrow> random_pid env now
                                              | Some p \<Rightarrow> (if p = 0 then random_pid env now else p))\<rparr>
                          else f) (localForks st)\<rparr>)
      | None \<Rightarrow>
          addTerminalLine now Error (ballot_x @ '' Failed to launch fork'')
            (st\<lparr>localForks :=
                 map (\<lambda>f. if fork_id f = fork_id fork then f\<lparr>status := Failed\<rparr> else f) (localForks st)\<rparr>))"

text \<open>The whole of \<^verbatim>\<open>launchFork\<close> when nothing else happens while the Gateway answers.\<close>

definition launchFork ::
  "Env \<Rightarrow> AppState \<Rightarrow> int \<Rightarrow> Fork \<Rightarrow> AppState \<Rightarrow> AppState \<times> ForkCreateRequest option" where
  "launchFork env snap now fork st =
     (case launchFork_begin env snap now fork st of
        (st1, None) \<Rightarrow> (st1, None)
      | (st1, Some req) \<Rightarrow>
          (let result = gateway_create env now req
           in (launchFork_resolve env now fork result (apiCreateFork result st1), Some req)))"

section \<open>Launch paths\<close>

text \<open>
  \<^verbatim>\<open>if (!prompt.trim()) return\<close>: nothing happens when the prompt is only white space.
  Strings are the UTF-8 bytes of the text, so the white space and line terminator
  characters that \<^verbatim>\<open>trim\<close> strips are the six ASCII ones, the two bytes of U+00A0 and the
  three-byte sequences below (U+1680, U+2000 to U+200A, U+2028, U+2029, U+202F, U+205F,
  U+3000, U+FEFF).
\<close>

definition ascii_white_space :: "char list" where
  "ascii_white_space = [CHR 0x09, CHR 0x0A, CHR 0x0B, CHR 0x0C, CHR 0x0D, CHR 0x20]"

definition wide_white_space :: "string list" where
  "wide_white_space =
     [[CHR 0xE1, CHR 0x9A, CHR 0x80],
      [CHR 0xE2, CHR 0x80, CHR 0x80], [CHR 0xE2, CHR 0x80, CHR 0x81], [CHR 0xE2, CHR 0x80, CHR 0x82],
      [CHR 0xE2, CHR 0x80, CHR 0x83], [CHR 0xE2, CHR 0x80, CHR 0x84], [CHR 0xE2, CHR 0x80, CHR 0x85],
      [CHR 0xE2, CHR 0x80, CHR 0x86], [CHR 0xE2, CHR 0x80, CHR 0x87], [CHR 0xE2, CHR 0x80, CHR 0x88],
      [CHR 0xE2, CHR 0x80, CHR 0x89], [CHR 0xE2, CHR 0x80, CHR 0x8A],
      [CHR 0xE2, CHR 0x80, CHR 0xA8], [CHR 0xE2, CHR 0x80, CHR 0xA9], [CHR 0xE2, CHR 0x80, CHR 0xAF],
      [CHR 0xE2, CHR 0x81, CHR 0x9F],
      [CHR 0xE3, CHR 0x80, CHR 0x80],
      [CHR 0xEF, CHR 0xBB, CHR 0xBF]]"

fun is_blank :: "string \<Rightarrow> bool" where
  "is_blank [] = True"
| "is_blank (c # cs) =
     (if c \<in> set ascii_white_space then is_blank cs
      else if c = CHR 0xC2 then (case cs of d # rest \<Rightarrow> d = CHR 0xA0 \<and> is_blank rest | [] \<Rightarrow> False)
      else (case cs of d # e # rest \<Rightarrow> [c, d, e] \<in> set wide_white_space \<and> is_blank rest | _ \<Rightarrow> False))"

text \<open>
  \<^verbatim>\<open>launchSingleFork\<close>: create the fork, put it at the head of the registry, and 300 ms
  later run \<^verbatim>\<open>launchFork\<close>. The \<^verbatim>\<open>launchFork\<close> it calls is the one of the render in which
  the button was pressed, so its admission check reads the registry of the call
  (\<open>st\<close>), not the one that already holds the new fork. When \<^verbatim>\<open>createLocalFork\<close> throws,
  the call ends there: the result carries the error and the state with the counter advanced.
\<close>

definition launchSingleFork_create :: "Env \<Rightarrow> int \<Rightarrow> AppState \<Rightarrow> (error + Fork) \<times> AppState" where
  "launchSingleFork_create env now st =
     (case createLocalFork env now (selectedAgent st) (selModelTier st) (promptInput st)
             \<lparr>opt_includeSummary = Some (selIncludeSummary st), opt_workflowId = None\<rparr> st of
        (Inl e, st1) \<Rightarrow> (Inl e, st1)
      | (Inr fork, st1) \<Rightarrow> (Inr fork, st1\<lparr>localForks := fork # localForks st1\<rparr>))"

definition launchSingleFork ::
  "Env \<Rightarrow> int \<Rightarrow> AppState \<Rightarrow> AppState \<times> (error + ForkCreateRequest option)" where
  "launchSingleFork env now st =
     (if is_blank (promptInput st) then (st, Inr None)
      else
        (case launchSingleFork_create env now st of
           (Inl e, st1) \<Rightarrow> (st1, Inl e)
         | (Inr fork, st1) \<Rightarrow>
             (case launchFork env st (now + 300) fork st1 of
                (st2, req) \<Rightarrow> (st2\<lparr>promptInput := []\<rparr>, Inr req))))"

text \<open>
  The same call observed when \<^verbatim>\<open>launchFork\<close> has reached its \<^verbatim>\<open>await\<close> (or has returned
  because admission was denied): the state before the Gateway answers.
\<close>

definition launchSingleFork_await ::
  "Env \<Rightarrow> int \<Rightarrow> AppState \<Rightarrow> AppState \<times> (error + ForkCreateRequest option)" where
  "launchSingleFork_await env now st =
     (if is_blank (promptInput st) then (st, Inr None)
      else
        (case launchSingleFork_create env now st of
           (Inl e, st1) \<Rightarrow> (st1, Inl e)
         | (Inr fork, st1) \<Rightarrow>
             (case launchFork_begin env st (now + 300) fork st1 of (st2, req) \<Rightarrow> (st2, Inr req))))"

text \<open>
  \<^verbatim>\<open>items.map(item => createLocalFork(...))\<close>: the forks are created in order; the first
  throw ends the map, with the counter advanced for every item tried.
\<close>

fun createLocalForks ::
  "Env \<Rightarrow> int \<Rightarrow> (string \<times> ModelTier \<times> string \<times> LaunchOptions) list \<Rightarrow> AppState
     \<Rightarrow> (error + Fork list) \<times> AppState" where
  "createLocalForks env now [] st = (Inr [], st)"
| "createLocalForks env now ((ag, tier, p, options) # specs) st =
     (case createLocalFork env now ag tier p options st of
        (Inl e, st1) \<Rightarrow> (Inl e, st1)
      | (Inr f, st1) \<Rightarrow>
          (case createLocalForks env now specs st1 of
             (Inl e, st2) \<Rightarrow> (Inl e, st2)
           | (Inr fs, st2) \<Rightarrow> (Inr (f # fs), st2)))"

text \<open>
  The staggered loop of \<^verbatim>\<open>launchMultiFork\<close> and \<^verbatim>\<open>launchWorkflow\<close>: wait, then
  \<^verbatim>\<open>await launchFork(newForks[i])\<close>, with the \<^verbatim>\<open>launchFork\<close> of the render of the call
  throughout. It returns the create requests sent, in order.
\<close>

fun launch_loop ::
  "Env \<Rightarrow> AppState \<Rightarrow> int \<Rightarrow> int \<Rightarrow> Fork list \<Rightarrow> AppState \<Rightarrow> AppState \<times> ForkCreateRequest list" where
  "launch_loop env snap stagger now [] st = (st, [])"
| "launch_loop env snap stagger now (f # fs) st =
     (case launchFork env snap (now + stagger) f st of
        (st1, r) \<Rightarrow>
          (case launch_loop env snap stagger (now + stagger) fs st1 of
             (st2, rs) \<Rightarrow> (st2, (case r of None \<Rightarrow> rs | Some q \<Rightarrow> q # rs))))"

definition launchMultiFork ::
  "Env \<Rightarrow> int \<Rightarrow> AppState \<Rightarrow> AppState \<times> (error + ForkCreateRequest list)" where
  "launchMultiFork env now st =
     (if multiForkQueue st = [] then (st, Inr [])
      else
        (let st0 = addTerminalLine now Workflow
                     (''Launching '' @ string_of_nat (length (multiForkQueue st)) @ '' forks in sequence...'') st
         in case createLocalForks env now
                   (map (\<lambda>item. (qi_agent item, qi_modelTier item, qi_prompt item,
                                  \<lparr>opt_includeSummary = Some (qi_includeSummary item), opt_workflowId = None\<rparr>))
                      (multiForkQueue st)) st0 of
              (Inl e, st1) \<Rightarrow> (st1, Inl e)
            | (Inr newForks, st1) \<Rightarrow>
                (case launch_loop env st 500 now newForks (st1\<lparr>localForks := newForks @ localForks st1\<rparr>) of
                   (st2, reqs) \<Rightarrow> (st2\<lparr>multiForkQueue := []\<rparr>, Inr reqs))))"

definition launchWorkflow ::
  "Env \<Rightarrow> int \<Rightarrow> WorkflowTemplate \<Rightarrow> AppState \<Rightarrow> AppState \<times> (error + ForkCreateRequest list)" where
  "launchWorkflow env now workflow st =
     (let st0 = addTerminalLine now Workflow (''Launching workflow: '' @ wt_name workflow) st
      in case createLocalForks env now
                (map (\<lambda>item. (wf_agent item, wf_modelTier item, wf_prompt item,
                               \<lparr>opt_includeSummary = None, opt_workflowId = Some (wt_id workflow)\<rparr>))
                   (wt_forks workflow)) st0 of
           (Inl e, st1) \<Rightarrow> (st1, Inl e)
         | (Inr newForks, st1) \<Rightarrow>
             (case launch_loop env st 600 now newForks (st1\<lparr>localForks := newForks @ localForks st1\<rparr>) of
                (st2, reqs) \<Rightarrow> (st2, Inr reqs)))"

section \<open>Cancel, retry, clear\<close>

definition cancelFork :: "Env \<Rightarrow> int \<Rightarrow> string \<Rightarrow> AppState \<Rightarrow> AppState" where
  "cancelFork env now forkId st =
     (let st1 = terminateFork (gateway_terminate env now forkId) forkId st;
          st2 = st1\<lparr>localForks :=
                     map (\<lambda>f. if fork_id f = forkId \<and> is_active (status f)
                              then f\<lparr>status := Cancelled, completedAt := Some now\<rparr> else f) (localForks st1)\<rparr>
      in addTerminalLine now Warning (''Fork #'' @ forkId @ '' cancelled'') st2)"

text \<open>
  \<^verbatim>\<open>retryFork\<close> in two parts: \<open>retryFork_create\<close> is what runs at once (the new record and
  its insertion), \<open>retryFork\<close> adds the \<^verbatim>\<open>launchFork\<close> of 300 ms later. A throw in
  \<^verbatim>\<open>createLocalFork\<close> ends the call before anything is inserted.
\<close>

definition retryFork_create :: "Env \<Rightarrow> int \<Rightarrow> Fork \<Rightarrow> AppState \<Rightarrow> (error + Fork) \<times> AppState" where
  "retryFork_create env now fork st =
     (case createLocalFork env now (agent fork) (modelTier fork) (task fork)
             \<lparr>opt_includeSummary = Some (includeSummary fork), opt_workflowId = workflowId fork\<rparr> st of
        (Inl e, st1) \<Rightarrow> (Inl e, st1)
      | (Inr newFork, st1) \<Rightarrow> (Inr newFork, st1\<lparr>localForks := newFork # localForks st1\<rparr>))"

definition retryFork ::
  "Env \<Rightarrow> int \<Rightarrow> Fork \<Rightarrow> AppState \<Rightarrow> AppState \<times> (error + ForkCreateRequest option)" where
  "retryFork env now fork st =
     (case retryFork_create env now fork st of
        (Inl e, st1) \<Rightarrow> (st1, Inl e)
      | (Inr newFork, st1) \<Rightarrow>
          (case launchFork env st (now + 300) newFork st1 of (st2, req) \<Rightarrow> (st2, Inr req)))"

definition clearHistory :: "int \<Rightarrow> AppState \<Rightarrow> AppState" where
  "clearHistory now st =
     addTerminalLine now System ''Fork history cleared''
       (st\<lparr>localForks := filter (\<lambda>f. is_active (status f)) (localForks st)\<rparr>)"

section \<open>Merged view\<close>

text \<open>
  \<^verbatim>\<open>allForks\<close>: the local forks, then every Gateway-side fork whose id no local fork has,
  with bare strings in its output turned into lines.
\<close>

definition normalize_output :: "int \<Rightarrow> Fork \<Rightarrow> Fork" where
  "normalize_output now f =
     f\<lparr>fork_out := map (\<lambda>entry. case entry of RawText s \<Rightarrow> OutputLine now s | OutputLine t s \<Rightarrow> OutputLine t s)
                      (fork_out f)\<rparr>"

definition allForks :: "int \<Rightarrow> AppState \<Rightarrow> Fork list" where
  "allForks now st =
     localForks st @
     map (normalize_output now)
       (filter (\<lambda>apiFork. find (\<lambda>lf. fork_id lf = fork_id apiFork) (localForks st) = None) (apiForks st))"

definition statuses_of :: "string \<Rightarrow> Fork list \<Rightarrow> ForkStatus list" where
  "statuses_of forkId fs = map status (filter (\<lambda>f. fork_id f = forkId) fs)"

definition outputs_of :: "string \<Rightarrow> Fork list \<Rightarrow> OutputEntry list list" where
  "outputs_of forkId fs = map fork_out (filter (\<lambda>f. fork_id f = forkId) fs)"

section \<open>Progress tick\<close>

definition tick_fork :: "int \<Rightarrow> TickDraw \<Rightarrow> Fork \<Rightarrow> Fork" where
  "tick_fork now d fork =
     (if status fork = Running \<and> progress fork < 100 then
        (let increment = draw_increment d * 8 + 2;
             newProgress = min 100 (progress fork + increment);
             newOutput = (if draw_output d > 0.7
                          then fork_out fork @ [OutputLine now (draw_text d)] else fork_out fork)
         in if newProgress \<ge> 100 then
              fork\<lparr>progress := 100,
                   status := (if draw_status d > 0.1 then Completed else Failed),
                   completedAt := Some now,
                   duration := Some (now - startedAt fork),
                   fork_out := newOutput\<rparr>
            else fork\<lparr>progress := newProgress, fork_out := newOutput\<rparr>)
      else fork)"

definition progress_tick :: "Env \<Rightarrow> int \<Rightarrow> AppState \<Rightarrow> AppState" where
  "progress_tick env now st =
     st\<lparr>localForks :=
          map (\<lambda>i. tick_fork now (random_tick env now i) (localForks st ! i)) [0..<length (localForks st)]\<rparr>"

section \<open>Histories of operations and events\<close>

datatype Operation =
    CancelFork string
  | TerminateFork string
  | ChannelMessage WebSocketMessage
  | ProgressTick

fun apply_op :: "Env \<Rightarrow> int \<Rightarrow> Operation \<Rightarrow> AppState \<Rightarrow> AppState" where
  "apply_op env now (CancelFork forkId) st = cancelFork env now forkId st"
| "apply_op env now (TerminateFork forkId) st = terminateFork (gateway_terminate env now forkId) forkId st"
| "apply_op env now (ChannelMessage msg) st = on_message now msg st"
| "apply_op env now ProgressTick st = progress_tick env now st"

fun run_ops :: "Env \<Rightarrow> (int \<times> Operation) list \<Rightarrow> AppState \<Rightarrow> AppState" where
  "run_ops env [] st = st"
| "run_ops env ((now, op) # ops) st = run_ops env ops (apply_op env now op st)"

definition active_count :: "Fork list \<Rightarrow> nat" where
  "active_count fs = length (filter (\<lambda>f. is_active (status f)) fs)"

definition status_count :: "ForkStatus \<Rightarrow> Fork list \<Rightarrow> nat" where
  "status_count s fs = length (filter (\<lambda>f. status f = s) fs)"

definition is_terminal :: "ForkStatus \<Rightarrow> bool" where
  "is_terminal s = (s \<in> set [Completed, Failed, Cancelled, Terminated])"

definition is_fork_update :: "Operation \<Rightarrow> bool" where
  "is_fork_update op = (case op of ChannelMessage (fork_update u) \<Rightarrow> True | _ \<Rightarrow> False)"

text \<open>
  The placeholder ids still to be issued are \<open>local_id k\<close> for \<open>k\<close> from the counter on.
  A registry is \<open>placeholders_fresh\<close> when no fork in either list carries one of them.
\<close>

definition placeholders_fresh :: "AppState \<Rightarrow> bool" where
  "placeholders_fresh st =
     (\<forall>f \<in> set (localForks st) \<union> set (apiForks st). \<forall>k \<ge> forkIdCounter st. fork_id f \<noteq> local_id k)"

section \<open>Relations between a registry before and after\<close>

text \<open>
  Position by position, the later list holds the same fork ids, and each fork's output
  is the earlier output with lines added at the end.
\<close>

definition output_extended :: "Fork list \<Rightarrow> Fork list \<Rightarrow> bool" where
  "output_extended old new =
     list_all2 (\<lambda>f g. fork_id g = fork_id f \<and> prefix (fork_out f) (fork_out g)) old new"

text \<open>Position by position, the same ids, and a fork that was terminal is the same record.\<close>

definition terminal_kept :: "Fork list \<Rightarrow> Fork list \<Rightarrow> bool" where
  "terminal_kept old new =
     list_all2 (\<lambda>f g. fork_id g = fork_id f \<and> (is_terminal (status f) \<longrightarrow> g = f)) old new"

text \<open>The fork id whose status an operation may set in the Gateway-side list.\<close>

fun status_target :: "Operation \<Rightarrow> string option" where
  "status_target (CancelFork forkId) = Some forkId"
| "status_target (TerminateFork forkId) = Some forkId"
| "status_target (ChannelMessage (fork_update u)) = Some (fork_id u)"
| "status_target (ChannelMessage (fork_completed forkId)) = Some forkId"
| "status_target (ChannelMessage (fork_failed forkId forkError)) = Some forkId"
| "status_target (ChannelMessage (fork_output forkId out)) = None"
| "status_target (ChannelMessage config_update) = None"
| "status_target ProgressTick = None"

definition status_kept_off_target :: "Operation \<Rightarrow> Fork list \<Rightarrow> Fork list \<Rightarrow> bool" where
  "status_kept_off_target op old new =
     list_all2 (\<lambda>f g. fork_id g = fork_id f \<and> (status_target op \<noteq> Some (fork_id f) \<longrightarrow> status g = status f))
       old new"

section \<open>Runs of the client\<close>

text \<open>
  Everything that changes the state: the launch paths, retry, clearing the history, a
  refresh of the Gateway-side list, the operations and events above, and the edits of the
  launch panel, the queue and the settings. \<open>run_actions\<close> applies a history of them, each
  at its time.
\<close>

datatype Action =
    LaunchSingle
  | LaunchMulti
  | LaunchWorkflow WorkflowTemplate
  | Retry Fork
  | ClearHistory
  | FetchForks "Fork list option"
  | Perform Operation
  | SetLaunchPanel string ModelTier string bool
  | SetQueue "QueueItem list"
  | SetSettings int bool

fun client_step :: "Env \<Rightarrow> int \<Rightarrow> Action \<Rightarrow> AppState \<Rightarrow> AppState" where
  "client_step env now LaunchSingle st = fst (launchSingleFork env now st)"
| "client_step env now LaunchMulti st = fst (launchMultiFork env now st)"
| "client_step env now (LaunchWorkflow workflow) st = fst (launchWorkflow env now workflow st)"
| "client_step env now (Retry fork) st = fst (retryFork env now fork st)"
| "client_step env now ClearHistory st = clearHistory now st"
| "client_step env now (FetchForks result) st = fetchForks result st"
| "client_step env now (Perform op) st = apply_op env now op st"
| "client_step env now (SetLaunchPanel ag tier p summary) st =
     st\<lparr>selectedAgent := ag, selModelTier := tier, promptInput := p, selIncludeSummary := summary\<rparr>"
| "client_step env now (SetQueue items) st = st\<lparr>multiForkQueue := items\<rparr>"
| "client_step env now (SetSettings maxc focus) st = st\<lparr>maxConcurrent := maxc, autoFocus := focus\<rparr>"

fun run_actions :: "Env \<Rightarrow> (int \<times> Action) list \<Rightarrow> AppState \<Rightarrow> AppState" where
  "run_actions env [] st = st"
| "run_actions env ((now, a) # acts) st = run_actions env acts (client_step env now a st)"

text \<open>
  The ids the Gateway hands out, in answers to create requests and in the lists a refresh
  fetches, do not begin with the placeholder prefix.
\<close>

definition has_local_prefix :: "string \<Rightarrow> bool" where
  "has_local_prefix i = (take 6 i = ''local-'')"

definition gateway_ids_clean :: "Env \<Rightarrow> bool" where
  "gateway_ids_clean env =
     (\<forall>t req r. gateway_create env t req = Some r \<longrightarrow> \<not> has_local_prefix (fork_id r))"

fun fetched_ids_clean :: "Action \<Rightarrow> bool" where
  "fetched_ids_clean (FetchForks (Some data)) = list_all (\<lambda>f. \<not> has_local_prefix (fork_id f)) data"
| "fetched_ids_clean a = True"

text \<open>
  The ids of both lists, and what it means for a set of ids to hold none of the
  placeholder ids from number \<open>c\<close> on.
\<close>

definition registry_ids :: "AppState \<Rightarrow> string set" where
  "registry_ids st = fork_id ` (set (localForks st) \<union> set (apiForks st))"

definition ids_fresh :: "nat \<Rightarrow> string set \<Rightarrow> bool" where
  "ids_fresh c ids = (\<forall>i \<in> ids. \<forall>k \<ge> c. i \<noteq> local_id k)"

section \<open>Initial and example states\<close>

definition initial_state :: "int \<Rightarrow> AppState" where
  "initial_state now =
     \<lparr>apiForks = [], localForks = [], forkIdCounter = 1, terminalOutput = initial_terminal now,
      multiForkQueue = [], maxConcurrent = 5, autoFocus = True, selectedAgent = ''claude'',
      selModelTier = TierDefault, promptInput = [], selIncludeSummary = False\<rparr>"

definition example_fork :: "string \<Rightarrow> ForkStatus \<Rightarrow> OutputEntry list \<Rightarrow> Fork" where
  "example_fork forkId s out =
     \<lparr>fork_id = forkId, agent = ''claude'', model = ''opus'', modelTier = TierDefault, status = s,
      task = ''x'', prompt = ''x'', startedAt = 0, completedAt = None, duration = None,
      progress = 5, pid = None, fork_out = out, includeSummary = False, workflowId = None\<rparr>"

definition example_env :: Env where
  "example_env =
     \<lparr>agents = (\<lambda>a. Missing),
      gateway_create = (\<lambda>t req. Some (example_fork (''fork-'' @ req_prompt req) Running [])),
      gateway_terminate = (\<lambda>t forkId. True),
      random_pid = (\<lambda>t. 12345),
      random_tick = (\<lambda>t i. \<lparr>draw_increment = 1, draw_output = 1, draw_text = ''working'', draw_status = 1\<rparr>)\<rparr>"

definition example_item :: "string \<Rightarrow> QueueItem" where
  "example_item p =
     \<lparr>qi_id = 1, qi_agent = ''claude'', qi_modelTier = TierDefault, qi_prompt = p, qi_includeSummary = False\<rparr>"

text \<open>A Gateway that answers every create request with a fork whose id is \<open>local-2\<close>.\<close>

definition placeholder_env :: Env where
  "placeholder_env =
     example_env\<lparr>gateway_create := (\<lambda>t req. Some (example_fork ''local-2'' Running []))\<rparr>"

section \<open>Theorems\<close>


subsection \<open>Activity log\<close>

lemma terminal_append_length: "length (terminal_append now ty txt prev) = min (length prev) 100 + 1"
  by (simp add: terminal_append_def min_def)

lemma terminal_appends_bound:
  "cs \<noteq> [] \<Longrightarrow> length (terminal_appends cs prev) \<le> 101"
proof (induction cs arbitrary: prev)
  case Nil
  then show ?case by simp
next
  case (Cons c cs)
  obtain now ty tx where c: "c = (now, ty, tx)" by (cases c) auto
  show ?case
  proof (cases "cs = []")
    case True
    then show ?thesis using c by (simp add: terminal_append_length)
  next
    case False
    then show ?thesis using Cons.IH c by simp
  qed
qed

lemma terminal_append_last:
  "last (terminal_append now ty txt prev) = \<lparr>tl_type = ty, tl_text = ''> '' @ txt, tl_time = now\<rparr>"
  by (simp add: terminal_append_def)

lemma terminal_append_butlast:
  "butlast (terminal_append now ty txt prev) = drop (length prev - 100) prev"
  by (simp add: terminal_append_def)

text \<open>
  Claim C9. Every \<^verbatim>\<open>addTerminalLine\<close> call puts exactly one line at the end, carrying the
  caller's type and the time of the call (its text is the caller's text after the
  two-character prompt mark); the lines before it are the most recent 100 of the old
  log, unchanged and in order, so older ones are dropped on overflow; the log then holds
  at most 101 lines, and so does the log after any run of calls from its initial three
  lines.
\<close>

theorem addTerminalLine_append_only_bounded:
  "last (terminalOutput (addTerminalLine now ty txt st)) =
      \<lparr>tl_type = ty, tl_text = ''> '' @ txt, tl_time = now\<rparr>
   \<and> butlast (terminalOutput (addTerminalLine now ty txt st)) =
      drop (length (terminalOutput st) - 100) (terminalOutput st)
   \<and> suffix (butlast (terminalOutput (addTerminalLine now ty txt st))) (terminalOutput st)
   \<and> length (terminalOutput (addTerminalLine now ty txt st)) = min (length (terminalOutput st)) 100 + 1
   \<and> length (terminalOutput (addTerminalLine now ty txt st)) \<le> 101
   \<and> length (terminal_appends cs (initial_terminal t0)) \<le> 101"
proof -
  have "length (terminal_appends cs (initial_terminal t0)) \<le> 101"
    by (cases "cs = []") (simp_all add: terminal_appends_bound initial_terminal_def)
  then show ?thesis
    by (simp add: addTerminalLine_def terminal_append_last terminal_append_butlast
        terminal_append_length suffix_drop)
qed

theorem addTerminalLine_append_only_bounded_witness:
  "length (terminalOutput (addTerminalLine 7 Warning ''hi'' (initial_state 0))) = 4
   \<and> tl_type (last (terminalOutput (addTerminalLine 7 Warning ''hi'' (initial_state 0)))) = Warning
   \<and> butlast (terminalOutput (addTerminalLine 7 Warning ''hi'' (initial_state 0))) = initial_terminal 0"
  using addTerminalLine_append_only_bounded [of 7 Warning "''hi''" "initial_state 0" "[]" 0]
  by (simp add: initial_state_def initial_terminal_def)


subsection \<open>Reconnection\<close>

lemma attemptReconnect_step:
  "attemptReconnect ws =
     (if reconnectAttempts ws < 5
      then (ws\<lparr>reconnectAttempts := Suc (reconnectAttempts ws)\<rparr>, Some (1000 * 2 ^ reconnectAttempts ws))
      else (ws, None))"
  by (simp add: attemptReconnect_def maxReconnectAttempts_def reconnectDelay_def Let_def)

lemma channel_run_Closed_snd:
  "snd (channel_run (Closed # es) ws) =
     (if reconnectAttempts ws < 5
      then 1000 * 2 ^ reconnectAttempts ws
             # snd (channel_run es (ws\<lparr>reconnectAttempts := Suc (reconnectAttempts ws)\<rparr>))
      else snd (channel_run es ws))"
  by (simp add: onclose_def attemptReconnect_step split: prod.splits)

lemma channel_run_Closed_fst:
  "fst (channel_run (Closed # es) ws) =
     (if reconnectAttempts ws < 5
      then fst (channel_run es (ws\<lparr>reconnectAttempts := Suc (reconnectAttempts ws)\<rparr>))
      else fst (channel_run es ws))"
  by (simp add: onclose_def attemptReconnect_step split: prod.splits)

lemma channel_run_closed:
  "snd (channel_run (replicate n Closed) ws) =
     map (\<lambda>k. 1000 * 2 ^ (k - 1)) [Suc (reconnectAttempts ws)..<Suc (min (reconnectAttempts ws + n) 5)]"
proof (induction n arbitrary: ws)
  case 0
  then show ?case by simp
next
  case (Suc n)
  let ?a = "reconnectAttempts ws"
  let ?f = "\<lambda>k::nat. (1000::nat) * 2 ^ (k - 1)"
  show ?case
  proof (cases "?a < 5")
    case True
    let ?ws = "ws\<lparr>reconnectAttempts := Suc ?a\<rparr>"
    have lt: "Suc ?a < Suc (min (?a + Suc n) 5)" using True by simp
    have "snd (channel_run (replicate (Suc n) Closed) ws) =
            1000 * 2 ^ ?a # snd (channel_run (replicate n Closed) ?ws)"
      using True by (simp add: channel_run_Closed_snd del: channel_run.simps)
    also have "snd (channel_run (replicate n Closed) ?ws) =
            map ?f [Suc (Suc ?a)..<Suc (min (Suc ?a + n) 5)]"
      using Suc.IH [of ?ws] by simp
    also have "1000 * 2 ^ ?a # map ?f [Suc (Suc ?a)..<Suc (min (Suc ?a + n) 5)] =
            map ?f [Suc ?a..<Suc (min (?a + Suc n) 5)]"
      using upt_conv_Cons [OF lt] by simp
    finally show ?thesis .
  next
    case False
    then have "snd (channel_run (replicate (Suc n) Closed) ws) = snd (channel_run (replicate n Closed) ws)"
      by (simp add: channel_run_Closed_snd del: channel_run.simps)
    then show ?thesis using False Suc.IH [of ws] by simp
  qed
qed

lemma channel_run_closed_fst:
  "reconnectAttempts (fst (channel_run (replicate n Closed) ws)) =
     (if reconnectAttempts ws < 5 then min (reconnectAttempts ws + n) 5 else reconnectAttempts ws)"
proof (induction n arbitrary: ws)
  case 0
  then show ?case by simp
next
  case (Suc n)
  show ?case
    by (cases "reconnectAttempts ws < 5")
       (simp_all add: channel_run_Closed_fst Suc.IH del: channel_run.simps)
qed

text \<open>
  Claim C8. After a successful connection (\<open>onopen\<close>, which sets the attempt counter to
  zero), \<open>n\<close> closures in a row with no successful connection between them schedule
  reconnects with the delays 1000 * 2^(k-1) ms for k = 1, ..., min n 5: at most five
  timers, and once five attempts have failed no further closure schedules anything.
\<close>

theorem reconnect_bounded_backoff:
  "snd (channel_run (replicate n Closed) (onopen ws)) =
      map (\<lambda>k. 1000 * 2 ^ (k - 1)) [1..<Suc (min n 5)]
   \<and> length (snd (channel_run (replicate n Closed) (onopen ws))) \<le> 5
   \<and> snd (channel_run (replicate m Closed) (fst (channel_run (replicate 5 Closed) (onopen ws)))) = []
   \<and> reconnectAttempts (onopen ws) = 0"
proof -
  have a0: "reconnectAttempts (onopen ws) = 0" by (simp add: onopen_def)
  have d: "snd (channel_run (replicate n Closed) (onopen ws)) =
             map (\<lambda>k. 1000 * 2 ^ (k - 1)) [1..<Suc (min n 5)]"
    using channel_run_closed [of n "onopen ws"] a0 by simp
  have five: "reconnectAttempts (fst (channel_run (replicate 5 Closed) (onopen ws))) = 5"
    using channel_run_closed_fst [of 5 "onopen ws"] a0 by simp
  have none: "snd (channel_run (replicate m Closed) (fst (channel_run (replicate 5 Closed) (onopen ws)))) = []"
    using channel_run_closed [of m "fst (channel_run (replicate 5 Closed) (onopen ws))"] five by simp
  have len: "length (snd (channel_run (replicate n Closed) (onopen ws))) \<le> 5"
    unfolding d by simp
  show ?thesis using d len none a0 by blast
qed

theorem reconnect_bounded_backoff_witness:
  "snd (channel_run (replicate 7 Closed) (onopen new_ForkWebSocket)) = [1000, 2000, 4000, 8000, 16000]"
proof -
  have "[1..<Suc (min 7 5)] = [1, 2, 3, 4, 5::nat]" by (simp add: upt_rec)
  then show ?thesis
    using reconnect_bounded_backoff [of 7 new_ForkWebSocket 0] by simp
qed


subsection \<open>Admission reads the local registry only\<close>

text \<open>
  Claim C10. The admission decision depends only on the local registry and on
  \<open>maxConcurrent\<close>: two states that agree on both get the same answer from
  \<^verbatim>\<open>canLaunchFork\<close>, whatever their Gateway-side lists hold, and replacing the
  Gateway-side list (as \<^verbatim>\<open>fetchForks\<close> does) never changes the answer.
\<close>

theorem canLaunchFork_ignores_apiForks:
  "(localForks st1 = localForks st2 \<and> maxConcurrent st1 = maxConcurrent st2
      \<longrightarrow> canLaunchFork st1 = canLaunchFork st2)
   \<and> canLaunchFork (fetchForks result st) = canLaunchFork st
   \<and> canLaunchFork (st\<lparr>apiForks := remote\<rparr>) = canLaunchFork st"
  by (simp add: canLaunchFork_def fetchForks_def split: option.splits)

theorem canLaunchFork_ignores_apiForks_witness:
  "canLaunchFork (initial_state 0\<lparr>maxConcurrent := 1\<rparr>)
   \<and> canLaunchFork (fetchForks (Some [example_fork ''fork-1'' Running [], example_fork ''fork-2'' Running []])
        (initial_state 0\<lparr>maxConcurrent := 1\<rparr>))"
proof -
  have "canLaunchFork (initial_state 0\<lparr>maxConcurrent := 1\<rparr>)"
    by (simp add: canLaunchFork_def initial_state_def)
  then show ?thesis
    using canLaunchFork_ignores_apiForks
      [of "initial_state 0\<lparr>maxConcurrent := 1\<rparr>" "initial_state 0\<lparr>maxConcurrent := 1\<rparr>"
          "Some [example_fork ''fork-1'' Running [], example_fork ''fork-2'' Running []]"
          "initial_state 0\<lparr>maxConcurrent := 1\<rparr>" "[]"]
    by simp
qed


subsection \<open>Events on the Gateway-side list\<close>

lemma map_if_absent:
  "forkId \<notin> fork_id ` set prev \<Longrightarrow> map (\<lambda>f. if fork_id f = forkId then h f else f) prev = prev"
  by (induction prev) auto

lemma on_message_ids:
  "map fork_id (apiForks (on_message now msg st)) = map fork_id (apiForks st)"
  by (cases msg)
     (simp_all add: on_fork_update_def on_fork_output_def on_fork_completed_def on_fork_failed_def)

lemma on_message_localForks: "localForks (on_message now msg st) = localForks st"
  by (cases msg) simp_all

text \<open>
  Claim C5, as amended. No channel event inserts a record: every event leaves the local
  registry as it is and the Gateway-side list with the same ids at the same positions;
  and a \<^verbatim>\<open>fork_update\<close>, \<^verbatim>\<open>fork_output\<close>, \<^verbatim>\<open>fork_completed\<close> or \<^verbatim>\<open>fork_failed\<close> event whose fork id
  is not in the Gateway-side list leaves the whole state unchanged.
\<close>

theorem event_for_unknown_id_changes_nothing:
  "localForks (on_message now msg st) = localForks st
   \<and> map fork_id (apiForks (on_message now msg st)) = map fork_id (apiForks st)
   \<and> (forkId \<notin> fork_id ` set (apiForks st) \<longrightarrow>
        on_message now (fork_completed forkId) st = st
      \<and> on_message now (fork_failed forkId forkError) st = st
      \<and> on_message now (fork_output forkId out) st = st
      \<and> on_message now (fork_update (u\<lparr>fork_id := forkId\<rparr>)) st = st)"
  by (simp add: on_message_ids on_message_localForks map_if_absent
      on_fork_update_def on_fork_output_def on_fork_completed_def on_fork_failed_def)

theorem event_for_unknown_id_changes_nothing_witness:
  "on_message 3 (fork_completed ''fork-9'') (initial_state 0\<lparr>apiForks := [example_fork ''fork-7'' Running []]\<rparr>)
     = initial_state 0\<lparr>apiForks := [example_fork ''fork-7'' Running []]\<rparr>"
proof -
  have "''fork-9'' \<notin> fork_id ` set (apiForks (initial_state 0\<lparr>apiForks := [example_fork ''fork-7'' Running []]\<rparr>))"
    by (simp add: example_fork_def)
  then show ?thesis
    using event_for_unknown_id_changes_nothing
      [of 3 config_update "initial_state 0\<lparr>apiForks := [example_fork ''fork-7'' Running []]\<rparr>" "''fork-9''"]
    by blast
qed

text \<open>
  The claim as stated fails: with both registries empty, a \<^verbatim>\<open>fork_completed\<close> event for
  \<open>fork-9\<close> leaves no record for that id in either list or in the merged view.
\<close>

theorem fork_completed_unknown_id_not_inserted:
  "statuses_of ''fork-9'' (apiForks (on_message 3 (fork_completed ''fork-9'') (initial_state 0))) = []
   \<and> statuses_of ''fork-9'' (localForks (on_message 3 (fork_completed ''fork-9'') (initial_state 0))) = []
   \<and> allForks 4 (on_message 3 (fork_completed ''fork-9'') (initial_state 0)) = []"
  by (simp add: statuses_of_def allForks_def initial_state_def on_fork_completed_def)


subsection \<open>The merged view after a completion event\<close>

lemma statuses_of_append: "statuses_of i (xs @ ys) = statuses_of i xs @ statuses_of i ys"
  by (simp add: statuses_of_def)

lemma find_None_image: "find (\<lambda>lf. fork_id lf = i) xs = None \<longleftrightarrow> i \<notin> fork_id ` set xs"
  by (auto simp: find_None_iff)

lemma statuses_of_absent: "i \<notin> fork_id ` set xs \<Longrightarrow> statuses_of i xs = []"
  by (induction xs) (auto simp: statuses_of_def)

lemma statuses_of_merged_remote:
  "statuses_of i (map (normalize_output t)
       (filter (\<lambda>apiFork. find (\<lambda>lf. fork_id lf = fork_id apiFork) loc = None) api)) =
     (if i \<in> fork_id ` set loc then [] else statuses_of i api)"
  by (induction api) (auto simp: statuses_of_def normalize_output_def find_None_image)

lemma statuses_of_allForks:
  "statuses_of i (allForks t st) =
     (if i \<in> fork_id ` set (localForks st) then statuses_of i (localForks st)
      else statuses_of i (apiForks st))"
  by (simp add: allForks_def statuses_of_append statuses_of_merged_remote statuses_of_absent)

lemma statuses_of_completed:
  "statuses_of i (on_fork_completed now i api) = replicate (length (statuses_of i api)) Completed"
  by (induction api) (auto simp: statuses_of_def on_fork_completed_def)

text \<open>
  Claim C3, as amended. A \<^verbatim>\<open>fork_completed\<close> event changes the Gateway-side list only, and
  the merged view takes a fork from that list only when no local fork has its id. So
  when the id is not in the local registry, the merged view after the event shows every
  record of that id as completed; when a local fork has the id, the merged view keeps
  showing the local records of that id with the status they had.
\<close>

theorem fork_completed_in_merged_view:
  "(forkId \<notin> fork_id ` set (localForks st) \<longrightarrow>
      statuses_of forkId (allForks t (on_message now (fork_completed forkId) st)) =
        replicate (length (statuses_of forkId (allForks t st))) Completed)
   \<and> (forkId \<in> fork_id ` set (localForks st) \<longrightarrow>
      statuses_of forkId (allForks t (on_message now (fork_completed forkId) st)) =
        statuses_of forkId (localForks st)
      \<and> statuses_of forkId (allForks t st) = statuses_of forkId (localForks st))"
  by (simp add: statuses_of_allForks statuses_of_completed)

theorem fork_completed_in_merged_view_witness:
  "statuses_of ''fork-7'' (allForks 4 (initial_state 0\<lparr>apiForks := [example_fork ''fork-7'' Running []]\<rparr>))
      = [Running]
   \<and> statuses_of ''fork-7'' (allForks 4 (on_message 3 (fork_completed ''fork-7'')
        (initial_state 0\<lparr>apiForks := [example_fork ''fork-7'' Running []]\<rparr>))) = [Completed]
   \<and> statuses_of ''fork-7'' (allForks 4 (on_message 3 (fork_completed ''fork-7'')
        (initial_state 0\<lparr>apiForks := [example_fork ''fork-7'' Running []],
                          localForks := [example_fork ''fork-7'' Spawning []]\<rparr>))) = [Spawning]"
proof -
  let ?remote = "initial_state 0\<lparr>apiForks := [example_fork ''fork-7'' Running []]\<rparr>"
  let ?both = "initial_state 0\<lparr>apiForks := [example_fork ''fork-7'' Running []],
                                localForks := [example_fork ''fork-7'' Spawning []]\<rparr>"
  have a: "''fork-7'' \<notin> fork_id ` set (localForks ?remote)"
    by (simp add: initial_state_def)
  have b: "''fork-7'' \<in> fork_id ` set (localForks ?both)"
    by (simp add: example_fork_def)
  have c: "statuses_of ''fork-7'' (allForks 4 ?remote) = [Running]"
    by (simp add: statuses_of_def allForks_def initial_state_def example_fork_def normalize_output_def)
  have d: "statuses_of ''fork-7'' (localForks ?both) = [Spawning]"
    by (simp add: statuses_of_def example_fork_def)
  show ?thesis
    using fork_completed_in_merged_view [of "''fork-7''" ?remote 4 3]
          fork_completed_in_merged_view [of "''fork-7''" ?both 4 3] a b c d
    by simp
qed

text \<open>
  The claim as stated fails. A single launch from the initial state, answered by the
  Gateway with fork \<open>fork-7\<close>, leaves that id running in both lists; the
  \<^verbatim>\<open>fork_completed\<close> event for it then changes the Gateway-side record only, and the
  merged view still shows the id as running.
\<close>

theorem fork_completed_stale_local_wins:
  "statuses_of ''fork-7''
     (allForks 900 (fst (launchSingleFork example_env 0 (initial_state 0\<lparr>promptInput := ''7''\<rparr>)))) = [Running]
   \<and> statuses_of ''fork-7''
     (allForks 900 (on_message 800 (fork_completed ''fork-7'')
        (fst (launchSingleFork example_env 0 (initial_state 0\<lparr>promptInput := ''7''\<rparr>))))) = [Running]
   \<and> statuses_of ''fork-7''
     (apiForks (on_message 800 (fork_completed ''fork-7'')
        (fst (launchSingleFork example_env 0 (initial_state 0\<lparr>promptInput := ''7''\<rparr>))))) = [Completed]"
  by (simp add: launchSingleFork_def launchSingleFork_create_def launchFork_def launchFork_begin_def
      launchFork_resolve_def model_name_def next_counter_def ascii_white_space_def wide_white_space_def
      apiCreateFork_def createLocalFork_def canLaunchFork_def is_active_def
      addTerminalLine_def request_of_def initial_state_def example_env_def example_fork_def
      statuses_of_def allForks_def normalize_output_def on_fork_completed_def Let_def)


subsection \<open>Output of a fork\<close>

lemma output_extended_refl: "output_extended xs xs"
  by (simp add: output_extended_def list_all2_same)

lemma output_extended_trans:
  assumes "output_extended xs ys" and "output_extended ys zs"
  shows "output_extended xs zs"
  unfolding output_extended_def
  by (rule list_all2_trans [OF _ assms [unfolded output_extended_def]])
     (auto intro: prefix_order.trans)

lemma output_extended_map:
  "(\<And>f. f \<in> set xs \<Longrightarrow> fork_id (h f) = fork_id f \<and> prefix (fork_out f) (fork_out (h f)))
     \<Longrightarrow> output_extended xs (map h xs)"
  by (simp add: output_extended_def list_all2_map2 list_all2_same)

lemma tick_fork_id: "fork_id (tick_fork now d f) = fork_id f"
  by (simp add: tick_fork_def Let_def)

lemma tick_fork_out: "prefix (fork_out f) (fork_out (tick_fork now d f))"
  by (simp add: tick_fork_def Let_def)

lemma progress_tick_output: "output_extended (localForks st) (localForks (progress_tick env now st))"
  by (simp add: output_extended_def progress_tick_def list_all2_conv_all_nth tick_fork_id tick_fork_out)

lemma cancelFork_local_output: "output_extended (localForks st) (localForks (cancelFork env now i st))"
  by (simp add: cancelFork_def terminateFork_def addTerminalLine_def Let_def output_extended_map)

lemma terminateFork_output: "output_extended (apiForks st) (apiForks (terminateFork ok i st))"
  by (simp add: terminateFork_def output_extended_map output_extended_refl)

lemma cancelFork_api_output: "output_extended (apiForks st) (apiForks (cancelFork env now i st))"
  using terminateFork_output [of st "gateway_terminate env now i" i]
  by (simp add: cancelFork_def addTerminalLine_def Let_def)

lemma on_message_output:
  "\<not> is_fork_update (ChannelMessage msg) \<Longrightarrow> output_extended (apiForks st) (apiForks (on_message now msg st))"
  by (cases msg)
     (simp_all add: is_fork_update_def on_fork_output_def on_fork_completed_def on_fork_failed_def
        output_extended_map output_extended_refl)

lemma apply_op_local_output: "output_extended (localForks st) (localForks (apply_op env now op st))"
  by (cases op)
     (simp_all add: cancelFork_local_output progress_tick_output on_message_localForks
        terminateFork_def output_extended_refl)

lemma apply_op_api_output:
  "\<not> is_fork_update op \<Longrightarrow> output_extended (apiForks st) (apiForks (apply_op env now op st))"
  by (cases op)
     (simp_all add: cancelFork_api_output terminateFork_output on_message_output
        progress_tick_def output_extended_refl)

lemma run_ops_local_output: "output_extended (localForks st) (localForks (run_ops env ops st))"
proof (induction ops arbitrary: st)
  case Nil
  show ?case by (simp add: output_extended_refl)
next
  case (Cons a ops)
  obtain now op where a: "a = (now, op)" by (cases a)
  show ?case
    using apply_op_local_output [of st env now op] Cons.IH [of "apply_op env now op st"]
    by (auto simp: a intro: output_extended_trans)
qed

lemma run_ops_api_output:
  "list_all (\<lambda>timed. \<not> is_fork_update (snd timed)) ops
     \<Longrightarrow> output_extended (apiForks st) (apiForks (run_ops env ops st))"
proof (induction ops arbitrary: st)
  case Nil
  show ?case by (simp add: output_extended_refl)
next
  case (Cons a ops)
  obtain now op where a: "a = (now, op)" by (cases a)
  have "\<not> is_fork_update op" and "list_all (\<lambda>timed. \<not> is_fork_update (snd timed)) ops"
    using Cons.prems by (simp_all add: a)
  then show ?case
    using apply_op_api_output [of op st env now] Cons.IH [of "apply_op env now op st"]
    by (auto simp: a intro: output_extended_trans)
qed

lemma outputs_of_fork_update:
  "outputs_of (fork_id u) (on_fork_update u api) = replicate (length (outputs_of (fork_id u) api)) (fork_out u)"
  by (induction api) (auto simp: outputs_of_def on_fork_update_def)

text \<open>
  Claim C4, as amended. Under \<^verbatim>\<open>fork_output\<close>, \<^verbatim>\<open>fork_completed\<close>, \<^verbatim>\<open>fork_failed\<close>,
  \<^verbatim>\<open>cancelFork\<close>, \<^verbatim>\<open>terminateFork\<close> and the progress tick, in any number and order, every
  fork's output in either list is its earlier output with lines added at the end. A
  \<^verbatim>\<open>fork_update\<close> event never touches the local registry, and in the Gateway-side list it
  replaces each record of its id by the payload, so the output there becomes the
  payload's output.
\<close>

theorem output_append_only_except_fork_update:
  "(list_all (\<lambda>timed. \<not> is_fork_update (snd timed)) ops \<longrightarrow>
      output_extended (apiForks st) (apiForks (run_ops env ops st)))
   \<and> output_extended (localForks st) (localForks (run_ops env ops st))
   \<and> outputs_of (fork_id u) (apiForks (on_message now (fork_update u) st)) =
        replicate (length (outputs_of (fork_id u) (apiForks st))) (fork_out u)"
  by (simp add: run_ops_api_output run_ops_local_output outputs_of_fork_update)

theorem output_append_only_except_fork_update_witness:
  "output_extended [example_fork ''fork-7'' Running [OutputLine 1 ''a'', OutputLine 2 ''b'']]
     (apiForks (run_ops example_env [(5, ChannelMessage (fork_output ''fork-7'' ''done''))]
        (initial_state 0\<lparr>apiForks := [example_fork ''fork-7'' Running [OutputLine 1 ''a'', OutputLine 2 ''b'']]\<rparr>)))
   \<and> outputs_of ''fork-7''
     (apiForks (run_ops example_env [(5, ChannelMessage (fork_output ''fork-7'' ''done''))]
        (initial_state 0\<lparr>apiForks := [example_fork ''fork-7'' Running [OutputLine 1 ''a'', OutputLine 2 ''b'']]\<rparr>)))
     = [[OutputLine 1 ''a'', OutputLine 2 ''b'', OutputLine 5 ''done'']]"
proof -
  let ?st = "initial_state 0\<lparr>apiForks := [example_fork ''fork-7'' Running [OutputLine 1 ''a'', OutputLine 2 ''b'']]\<rparr>"
  let ?ops = "[(5::int, ChannelMessage (fork_output ''fork-7'' ''done''))]"
  have h: "list_all (\<lambda>timed. \<not> is_fork_update (snd timed)) ?ops"
    by (simp add: is_fork_update_def)
  have "output_extended (apiForks ?st) (apiForks (run_ops example_env ?ops ?st))"
    using output_append_only_except_fork_update [of ?ops ?st example_env "example_fork ''fork-7'' Running []" 0] h
    by blast
  moreover have "outputs_of ''fork-7'' (apiForks (run_ops example_env ?ops ?st))
      = [[OutputLine 1 ''a'', OutputLine 2 ''b'', OutputLine 5 ''done'']]"
    by (simp add: outputs_of_def on_fork_output_def example_fork_def)
  ultimately show ?thesis by simp
qed

text \<open>
  The claim as stated fails: a \<^verbatim>\<open>fork_update\<close> whose payload has no output lines empties
  the output of a fork that had two.
\<close>

theorem fork_update_overwrites_output:
  "outputs_of ''fork-7''
     (apiForks (initial_state 0\<lparr>apiForks := [example_fork ''fork-7'' Running [OutputLine 1 ''a'', OutputLine 2 ''b'']]\<rparr>))
     = [[OutputLine 1 ''a'', OutputLine 2 ''b'']]
   \<and> outputs_of ''fork-7''
     (apiForks (on_message 5 (fork_update (example_fork ''fork-7'' Running []))
        (initial_state 0\<lparr>apiForks := [example_fork ''fork-7'' Running [OutputLine 1 ''a'', OutputLine 2 ''b'']]\<rparr>)))
     = [[]]
   \<and> outputs_of ''fork-7''
     (allForks 6 (on_message 5 (fork_update (example_fork ''fork-7'' Running []))
        (initial_state 0\<lparr>apiForks := [example_fork ''fork-7'' Running [OutputLine 1 ''a'', OutputLine 2 ''b'']]\<rparr>)))
     = [[]]"
  by (simp add: outputs_of_def on_fork_update_def example_fork_def allForks_def initial_state_def
      normalize_output_def)


subsection \<open>Terminal states\<close>

lemma terminal_not_active: "is_terminal s \<Longrightarrow> \<not> is_active s"
  by (cases s) (simp_all add: is_terminal_def is_active_def)

lemma terminal_kept_refl: "terminal_kept xs xs"
  by (simp add: terminal_kept_def list_all2_same)

lemma terminal_kept_trans:
  assumes "terminal_kept xs ys" and "terminal_kept ys zs"
  shows "terminal_kept xs zs"
  unfolding terminal_kept_def
  by (rule list_all2_trans [OF _ assms [unfolded terminal_kept_def]]) auto

lemma terminal_kept_map:
  "(\<And>f. f \<in> set xs \<Longrightarrow> fork_id (h f) = fork_id f \<and> (is_terminal (status f) \<longrightarrow> h f = f))
     \<Longrightarrow> terminal_kept xs (map h xs)"
  by (simp add: terminal_kept_def list_all2_map2 list_all2_same)

lemma tick_fork_terminal: "is_terminal (status f) \<Longrightarrow> tick_fork now d f = f"
  by (auto simp: tick_fork_def is_terminal_def)

lemma progress_tick_terminal: "terminal_kept (localForks st) (localForks (progress_tick env now st))"
  by (simp add: terminal_kept_def progress_tick_def list_all2_conv_all_nth tick_fork_id tick_fork_terminal)

lemma cancelFork_local_terminal: "terminal_kept (localForks st) (localForks (cancelFork env now i st))"
  by (simp add: cancelFork_def terminateFork_def addTerminalLine_def Let_def terminal_kept_map
      terminal_not_active)

lemma apply_op_local_terminal: "terminal_kept (localForks st) (localForks (apply_op env now op st))"
  by (cases op)
     (simp_all add: cancelFork_local_terminal progress_tick_terminal on_message_localForks
        terminateFork_def terminal_kept_refl)

lemma run_ops_local_terminal: "terminal_kept (localForks st) (localForks (run_ops env ops st))"
proof (induction ops arbitrary: st)
  case Nil
  show ?case by (simp add: terminal_kept_refl)
next
  case (Cons a ops)
  obtain now op where a: "a = (now, op)" by (cases a)
  show ?case
    using apply_op_local_terminal [of st env now op] Cons.IH [of "apply_op env now op st"]
    by (auto simp: a intro: terminal_kept_trans)
qed

lemma status_kept_map:
  "(\<And>f. f \<in> set xs \<Longrightarrow> fork_id (h f) = fork_id f \<and> (status_target op \<noteq> Some (fork_id f) \<longrightarrow> status (h f) = status f))
     \<Longrightarrow> status_kept_off_target op xs (map h xs)"
  by (simp add: status_kept_off_target_def list_all2_map2 list_all2_same)

lemma status_kept_refl: "status_kept_off_target op xs xs"
  by (simp add: status_kept_off_target_def list_all2_same)

lemma terminateFork_status:
  "status_target op = Some i \<Longrightarrow> status_kept_off_target op (apiForks st) (apiForks (terminateFork ok i st))"
  by (simp add: terminateFork_def status_kept_map status_kept_refl)

lemma on_message_status:
  "status_kept_off_target (ChannelMessage msg) (apiForks st) (apiForks (on_message now msg st))"
  by (cases msg)
     (simp_all add: on_fork_update_def on_fork_output_def on_fork_completed_def on_fork_failed_def
        status_kept_map status_kept_refl)

lemma apply_op_api_status: "status_kept_off_target op (apiForks st) (apiForks (apply_op env now op st))"
proof (cases op)
  case (CancelFork i)
  then show ?thesis
    using terminateFork_status [of op i st "gateway_terminate env now i"]
    by (simp add: cancelFork_def addTerminalLine_def Let_def)
next
  case (TerminateFork i)
  then show ?thesis
    using terminateFork_status [of op i st "gateway_terminate env now i"] by simp
next
  case (ChannelMessage msg)
  then show ?thesis by (simp add: on_message_status)
next
  case ProgressTick
  then show ?thesis by (simp add: progress_tick_def status_kept_refl)
qed

lemma statuses_of_map_terminated:
  "statuses_of i (map (\<lambda>f. if fork_id f = i then f\<lparr>status := Terminated\<rparr> else f) api) =
     replicate (length (statuses_of i api)) Terminated"
  by (induction api) (auto simp: statuses_of_def)

lemma statuses_of_terminated:
  "statuses_of i (apiForks (terminateFork True i st)) =
     replicate (length (statuses_of i (apiForks st))) Terminated"
  by (simp add: terminateFork_def statuses_of_map_terminated)

lemma statuses_of_failed:
  "statuses_of i (on_fork_failed now i forkError api) = replicate (length (statuses_of i api)) Failed"
  by (induction api) (auto simp: statuses_of_def on_fork_failed_def)

lemma statuses_of_updated:
  "statuses_of (fork_id u) (on_fork_update u api) =
     replicate (length (statuses_of (fork_id u) api)) (status u)"
  by (induction api) (auto simp: statuses_of_def on_fork_update_def)

lemma cancelFork_apiForks:
  "apiForks (cancelFork env now i st) = apiForks (terminateFork (gateway_terminate env now i) i st)"
  by (simp add: cancelFork_def addTerminalLine_def Let_def)

text \<open>
  Claim C2, as amended. In the registry of locally created forks a terminal state is
  absorbing under the listed operations: after any run of \<^verbatim>\<open>cancelFork\<close>,
  \<^verbatim>\<open>terminateFork\<close>, channel events and progress ticks, every local fork that was
  completed, failed, cancelled or terminated is the same record at the same position.
  In the Gateway-side list each of these operations keeps the status of every fork
  whose id it is not aimed at, and the fork it is aimed at gets its status set whatever
  it was: to terminated by a \<^verbatim>\<open>terminateFork\<close> that the Gateway accepts (a refused one
  changes nothing, and \<^verbatim>\<open>cancelFork\<close> does to this list exactly what its
  \<^verbatim>\<open>terminateFork\<close> call does), to the payload's status by \<^verbatim>\<open>fork_update\<close>, to completed by
  \<^verbatim>\<open>fork_completed\<close> and to failed by \<^verbatim>\<open>fork_failed\<close>.
\<close>

theorem terminal_absorbing_in_local_registry:
  "terminal_kept (localForks st) (localForks (run_ops env ops st))
   \<and> status_kept_off_target op (apiForks st) (apiForks (apply_op env now op st))
   \<and> statuses_of forkId (apiForks (terminateFork True forkId st)) =
        replicate (length (statuses_of forkId (apiForks st))) Terminated
   \<and> terminateFork False forkId st = st
   \<and> apiForks (cancelFork env now forkId st) =
        apiForks (terminateFork (gateway_terminate env now forkId) forkId st)
   \<and> statuses_of (fork_id u) (apiForks (on_message now (fork_update u) st)) =
        replicate (length (statuses_of (fork_id u) (apiForks st))) (status u)
   \<and> statuses_of forkId (apiForks (on_message now (fork_completed forkId) st)) =
        replicate (length (statuses_of forkId (apiForks st))) Completed
   \<and> statuses_of forkId (apiForks (on_message now (fork_failed forkId forkError) st)) =
        replicate (length (statuses_of forkId (apiForks st))) Failed"
  by (simp add: run_ops_local_terminal apply_op_api_status statuses_of_terminated cancelFork_apiForks
      statuses_of_updated statuses_of_completed statuses_of_failed)
    (simp add: terminateFork_def)

theorem terminal_absorbing_in_local_registry_witness:
  "is_terminal (status (example_fork ''local-1'' Cancelled []))
   \<and> localForks (run_ops example_env
        [(5, CancelFork ''local-1''), (6, ProgressTick), (7, ChannelMessage (fork_completed ''local-1'')),
         (8, TerminateFork ''local-1'')]
        (initial_state 0\<lparr>localForks := [example_fork ''local-1'' Cancelled []]\<rparr>))
     = [example_fork ''local-1'' Cancelled []]
   \<and> statuses_of ''local-1''
        (apiForks (on_message 0 (fork_failed ''local-1'' ''x'')
           (initial_state 0\<lparr>localForks := [example_fork ''local-1'' Cancelled []],
                             apiForks := [example_fork ''local-1'' Completed []]\<rparr>))) = [Failed]"
proof -
  let ?st = "initial_state 0\<lparr>localForks := [example_fork ''local-1'' Cancelled []]\<rparr>"
  let ?ops = "[(5::int, CancelFork ''local-1''), (6, ProgressTick),
               (7, ChannelMessage (fork_completed ''local-1'')), (8, TerminateFork ''local-1'')]"
  have t: "is_terminal (status (example_fork ''local-1'' Cancelled []))"
    by (simp add: is_terminal_def example_fork_def)
  have "terminal_kept [example_fork ''local-1'' Cancelled []] (localForks (run_ops example_env ?ops ?st))"
    using terminal_absorbing_in_local_registry
      [of ?st example_env ?ops ProgressTick 0 "''local-1''" "example_fork ''local-1'' Running []" "''x''"]
    by simp
  then have l: "localForks (run_ops example_env ?ops ?st) = [example_fork ''local-1'' Cancelled []]"
    using t by (auto simp: terminal_kept_def list_all2_Cons1)
  let ?st2 = "initial_state 0\<lparr>localForks := [example_fork ''local-1'' Cancelled []],
                                apiForks := [example_fork ''local-1'' Completed []]\<rparr>"
  have "statuses_of ''local-1'' (apiForks ?st2) = [Completed]"
    by (simp add: statuses_of_def example_fork_def)
  then have "statuses_of ''local-1'' (apiForks (on_message 0 (fork_failed ''local-1'' ''x'') ?st2)) = [Failed]"
    using terminal_absorbing_in_local_registry
      [of ?st2 example_env "[]" ProgressTick 0 "''local-1''" "example_fork ''local-1'' Running []" "''x''"]
    by simp
  then show ?thesis using t l by simp
qed

text \<open>
  The claim as stated fails: a completed fork of the Gateway-side list becomes
  terminated when \<^verbatim>\<open>terminateFork\<close> (alone or through \<^verbatim>\<open>cancelFork\<close>) succeeds for its id, and
  running again when a \<^verbatim>\<open>fork_update\<close> says so; the merged view shows the change.
\<close>

theorem terminateFork_overwrites_completed:
  "statuses_of ''fork-7'' (apiForks (initial_state 0\<lparr>apiForks := [example_fork ''fork-7'' Completed []]\<rparr>))
     = [Completed]
   \<and> statuses_of ''fork-7''
     (apiForks (apply_op example_env 5 (TerminateFork ''fork-7'')
        (initial_state 0\<lparr>apiForks := [example_fork ''fork-7'' Completed []]\<rparr>))) = [Terminated]
   \<and> statuses_of ''fork-7''
     (allForks 6 (apply_op example_env 5 (CancelFork ''fork-7'')
        (initial_state 0\<lparr>apiForks := [example_fork ''fork-7'' Completed []]\<rparr>))) = [Terminated]
   \<and> statuses_of ''fork-7''
     (apiForks (apply_op example_env 5 (ChannelMessage (fork_update (example_fork ''fork-7'' Running [])))
        (initial_state 0\<lparr>apiForks := [example_fork ''fork-7'' Completed []]\<rparr>))) = [Running]"
  by (simp add: statuses_of_def terminateFork_def cancelFork_def addTerminalLine_def on_fork_update_def
      example_env_def example_fork_def allForks_def initial_state_def normalize_output_def Let_def)


subsection \<open>Admission of a single launch\<close>

lemma canLaunchFork_count: "canLaunchFork st \<longleftrightarrow> int (active_count (localForks st)) < maxConcurrent st"
  by (simp add: canLaunchFork_def active_count_def)

lemma addTerminalLine_lists [simp]:
  "localForks (addTerminalLine now ty txt st) = localForks st"
  "apiForks (addTerminalLine now ty txt st) = apiForks st"
  "forkIdCounter (addTerminalLine now ty txt st) = forkIdCounter st"
  by (simp_all add: addTerminalLine_def)

lemma launchFork_begin_denied:
  "\<not> canLaunchFork snap \<Longrightarrow>
     snd (launchFork_begin env snap now fork st) = None
     \<and> localForks (fst (launchFork_begin env snap now fork st)) = localForks st
     \<and> apiForks (fst (launchFork_begin env snap now fork st)) = apiForks st"
  by (simp add: launchFork_begin_def)

lemma launchFork_begin_admitted:
  "canLaunchFork snap \<Longrightarrow>
     snd (launchFork_begin env snap now fork st) = Some (request_of snap fork)
     \<and> localForks (fst (launchFork_begin env snap now fork st)) =
         map (\<lambda>f. if fork_id f = fork_id fork then f\<lparr>status := Spawning, startedAt := now\<rparr> else f)
           (localForks st)
     \<and> apiForks (fst (launchFork_begin env snap now fork st)) = apiForks st"
  by (simp add: launchFork_begin_def Let_def)

lemma launchFork_denied:
  "\<not> canLaunchFork snap \<Longrightarrow>
     snd (launchFork env snap now fork st) = None
     \<and> localForks (fst (launchFork env snap now fork st)) = localForks st
     \<and> apiForks (fst (launchFork env snap now fork st)) = apiForks st"
  by (simp add: launchFork_def launchFork_begin_def)

lemma launchFork_request:
  "snd (launchFork env snap now fork st) = (if canLaunchFork snap then Some (request_of snap fork) else None)"
  by (simp add: launchFork_def launchFork_begin_def Let_def)

lemma createLocalFork_snd:
  "snd (createLocalFork env now ag tier p options st) = st\<lparr>forkIdCounter := next_counter (forkIdCounter st)\<rparr>"
  by (simp add: createLocalFork_def)

lemma createLocalFork_throws:
  "lookup_throws env ag \<Longrightarrow> fst (createLocalFork env now ag tier p options st) = Inl TypeError"
  by (simp add: createLocalFork_def model_name_def lookup_throws_def split: AgentLookup.splits)

lemma createLocalFork_creates:
  "\<not> lookup_throws env ag \<Longrightarrow> \<exists>f. fst (createLocalFork env now ag tier p options st) = Inr f"
  by (simp add: createLocalFork_def model_name_def lookup_throws_def split: AgentLookup.splits)

lemma createLocalFork_Inr:
  "fst (createLocalFork env now ag tier p options st) = Inr f \<Longrightarrow>
     \<not> lookup_throws env ag
     \<and> fork_id f = local_id (forkIdCounter st) \<and> status f = Queued \<and> agent f = ag \<and> modelTier f = tier
     \<and> task f = p \<and> prompt f = p \<and> fork_out f = [] \<and> workflowId f = opt_workflowId options
     \<and> includeSummary f = (case opt_includeSummary options of Some b \<Rightarrow> b | None \<Rightarrow> False)"
  by (auto simp: createLocalFork_def model_name_def lookup_throws_def split: AgentLookup.splits)

lemma launchSingleFork_create_Inr:
  "fst (launchSingleFork_create env now st) = Inr fork \<Longrightarrow>
     localForks (snd (launchSingleFork_create env now st)) = fork # localForks st
     \<and> apiForks (snd (launchSingleFork_create env now st)) = apiForks st
     \<and> status fork = Queued
     \<and> fork_id fork = local_id (forkIdCounter st)"
  using createLocalFork_Inr [of env now "selectedAgent st" "selModelTier st" "promptInput st"
          "\<lparr>opt_includeSummary = Some (selIncludeSummary st), opt_workflowId = None\<rparr>" st fork]
        createLocalFork_snd [of env now "selectedAgent st" "selModelTier st" "promptInput st"
          "\<lparr>opt_includeSummary = Some (selIncludeSummary st), opt_workflowId = None\<rparr>" st]
  by (auto simp: launchSingleFork_create_def split: prod.splits sum.splits)

lemma launchSingleFork_create_throws:
  "lookup_throws env (selectedAgent st) \<Longrightarrow>
     launchSingleFork_create env now st = (Inl TypeError, st\<lparr>forkIdCounter := next_counter (forkIdCounter st)\<rparr>)"
  using createLocalFork_throws [of env "selectedAgent st" now "selModelTier st" "promptInput st"
          "\<lparr>opt_includeSummary = Some (selIncludeSummary st), opt_workflowId = None\<rparr>" st]
        createLocalFork_snd [of env now "selectedAgent st" "selModelTier st" "promptInput st"
          "\<lparr>opt_includeSummary = Some (selIncludeSummary st), opt_workflowId = None\<rparr>" st]
  by (auto simp: launchSingleFork_create_def split: prod.splits sum.splits)

lemma launchSingleFork_create_creates:
  "\<not> lookup_throws env (selectedAgent st) \<Longrightarrow> \<exists>f. fst (launchSingleFork_create env now st) = Inr f"
  using createLocalFork_creates [of env "selectedAgent st" now "selModelTier st" "promptInput st"
          "\<lparr>opt_includeSummary = Some (selIncludeSummary st), opt_workflowId = None\<rparr>" st]
  by (auto simp: launchSingleFork_create_def split: prod.splits sum.splits)

text \<open>
  Claim C1. Let N be the number of forks of the local registry that are queued, spawning
  or running when \<^verbatim>\<open>launchSingleFork\<close> is called with a prompt that is not blank, and let
  \<open>fork\<close> be the fork the call creates. If N is at least \<open>maxConcurrent\<close>, no create request
  goes to the Gateway, the registry after the call is the new fork, still queued, in
  front of the unchanged old registry, the Gateway-side list is unchanged, and the
  numbers of running and of spawning forks are what they were. If N is below
  \<open>maxConcurrent\<close>, the create request for the new fork is sent and, while the Gateway has
  not answered, the new fork stands at the head of the registry in status spawning.
  A fork is created unless the lookup of the selected agent throws; then the call ends
  with the error and both lists as they were.
\<close>

theorem launchSingleFork_admission:
  "\<not> is_blank (promptInput st) \<Longrightarrow>
     (fst (launchSingleFork_create env now st) = Inr fork \<longrightarrow>
        (maxConcurrent st \<le> int (active_count (localForks st)) \<longrightarrow>
             snd (launchSingleFork env now st) = Inr None
           \<and> localForks (fst (launchSingleFork env now st)) = fork # localForks st
           \<and> status fork = Queued
           \<and> apiForks (fst (launchSingleFork env now st)) = apiForks st
           \<and> status_count Running (localForks (fst (launchSingleFork env now st))) =
                status_count Running (localForks st)
           \<and> status_count Spawning (localForks (fst (launchSingleFork env now st))) =
                status_count Spawning (localForks st))
      \<and> (int (active_count (localForks st)) < maxConcurrent st \<longrightarrow>
             snd (launchSingleFork_await env now st) = Inr (Some (request_of st fork))
           \<and> snd (launchSingleFork env now st) = Inr (Some (request_of st fork))
           \<and> hd (localForks (fst (launchSingleFork_await env now st))) =
                fork\<lparr>status := Spawning, startedAt := now + 300\<rparr>))
   \<and> (\<not> lookup_throws env (selectedAgent st) \<longrightarrow> (\<exists>f. fst (launchSingleFork_create env now st) = Inr f))
   \<and> (lookup_throws env (selectedAgent st) \<longrightarrow>
          snd (launchSingleFork env now st) = Inl TypeError
        \<and> localForks (fst (launchSingleFork env now st)) = localForks st
        \<and> apiForks (fst (launchSingleFork env now st)) = apiForks st)"
proof (intro conjI impI)
  assume nb: "\<not> is_blank (promptInput st)"
  {
    assume "\<not> lookup_throws env (selectedAgent st)"
    then show "\<exists>f. fst (launchSingleFork_create env now st) = Inr f"
      by (rule launchSingleFork_create_creates)
  }
  {
    assume th: "lookup_throws env (selectedAgent st)"
    have s: "launchSingleFork env now st = (st\<lparr>forkIdCounter := next_counter (forkIdCounter st)\<rparr>, Inl TypeError)"
      using nb launchSingleFork_create_throws [OF th, of now] by (simp add: launchSingleFork_def)
    show "snd (launchSingleFork env now st) = Inl TypeError" using s by simp
    show "localForks (fst (launchSingleFork env now st)) = localForks st" using s by simp
    show "apiForks (fst (launchSingleFork env now st)) = apiForks st" using s by simp
  }
  assume cr: "fst (launchSingleFork_create env now st) = Inr fork"
  obtain st1 where c: "launchSingleFork_create env now st = (Inr fork, st1)"
    using cr by (cases "launchSingleFork_create env now st") simp
  have l1: "localForks st1 = fork # localForks st" and a1: "apiForks st1 = apiForks st"
    and q: "status fork = Queued"
    using launchSingleFork_create_Inr [OF cr] c by simp_all
  {
    assume "maxConcurrent st \<le> int (active_count (localForks st))"
    then have d: "\<not> canLaunchFork st" by (simp add: canLaunchFork_count)
    obtain st2 req where l: "launchFork env st (now + 300) fork st1 = (st2, req)"
      by (cases "launchFork env st (now + 300) fork st1")
    have r: "req = None" and l2: "localForks st2 = localForks st1" and a2: "apiForks st2 = apiForks st1"
      using launchFork_denied [OF d, of env "now + 300" fork st1] l by simp_all
    have s: "launchSingleFork env now st = (st2\<lparr>promptInput := []\<rparr>, Inr req)"
      using nb c l by (simp add: launchSingleFork_def)
    show "snd (launchSingleFork env now st) = Inr None" using s r by simp
    show "localForks (fst (launchSingleFork env now st)) = fork # localForks st"
      using s l2 l1 by simp
    show "status fork = Queued" using q .
    show "apiForks (fst (launchSingleFork env now st)) = apiForks st" using s a2 a1 by simp
    show "status_count Running (localForks (fst (launchSingleFork env now st))) =
            status_count Running (localForks st)"
      using s l2 l1 q by (simp add: status_count_def)
    show "status_count Spawning (localForks (fst (launchSingleFork env now st))) =
            status_count Spawning (localForks st)"
      using s l2 l1 q by (simp add: status_count_def)
  }
  {
    assume "int (active_count (localForks st)) < maxConcurrent st"
    then have d: "canLaunchFork st" by (simp add: canLaunchFork_count)
    obtain st2 req where b: "launchFork_begin env st (now + 300) fork st1 = (st2, req)"
      by (cases "launchFork_begin env st (now + 300) fork st1")
    have w: "launchSingleFork_await env now st = (st2, Inr req)"
      using nb c b by (simp add: launchSingleFork_await_def)
    have r: "req = Some (request_of st fork)"
      and l2: "localForks st2 =
         map (\<lambda>f. if fork_id f = fork_id fork then f\<lparr>status := Spawning, startedAt := now + 300\<rparr> else f)
           (localForks st1)"
      using launchFork_begin_admitted [OF d, of env "now + 300" fork st1] b by simp_all
    show "snd (launchSingleFork_await env now st) = Inr (Some (request_of st fork))"
      using w r by simp
    show "snd (launchSingleFork env now st) = Inr (Some (request_of st fork))"
      using nb c d launchFork_request [of env st "now + 300" fork st1]
      by (auto simp: launchSingleFork_def split: prod.splits)
    show "hd (localForks (fst (launchSingleFork_await env now st))) =
            fork\<lparr>status := Spawning, startedAt := now + 300\<rparr>"
      using w l2 l1 by simp
  }
qed

theorem launchSingleFork_admission_witness:
  "snd (launchSingleFork example_env 0
          (initial_state 0\<lparr>promptInput := ''x'', maxConcurrent := 1,
                            localForks := [example_fork ''fork-7'' Running []]\<rparr>)) = Inr None
   \<and> map status (localForks (fst (launchSingleFork example_env 0
          (initial_state 0\<lparr>promptInput := ''x'', maxConcurrent := 1,
                            localForks := [example_fork ''fork-7'' Running []]\<rparr>)))) = [Queued, Running]
   \<and> status (hd (localForks (fst (launchSingleFork_await example_env 0
          (initial_state 0\<lparr>promptInput := ''x'', maxConcurrent := 1\<rparr>))))) = Spawning
   \<and> snd (launchSingleFork (example_env\<lparr>agents := Inherited\<rparr>) 0
          (initial_state 0\<lparr>promptInput := ''x'', selectedAgent := ''constructor''\<rparr>)) = Inl TypeError"
proof -
  let ?full = "initial_state 0\<lparr>promptInput := ''x'', maxConcurrent := 1,
                                localForks := [example_fork ''fork-7'' Running []]\<rparr>"
  let ?free = "initial_state 0\<lparr>promptInput := ''x'', maxConcurrent := 1\<rparr>"
  let ?odd = "initial_state 0\<lparr>promptInput := ''x'', selectedAgent := ''constructor''\<rparr>"
  have b1: "\<not> is_blank (promptInput ?full)" and b2: "\<not> is_blank (promptInput ?free)"
    and b3: "\<not> is_blank (promptInput ?odd)"
    by (simp_all add: ascii_white_space_def wide_white_space_def)
  have n1: "maxConcurrent ?full \<le> int (active_count (localForks ?full))"
    by (simp add: active_count_def is_active_def example_fork_def)
  have n2: "int (active_count (localForks ?free)) < maxConcurrent ?free"
    by (simp add: active_count_def initial_state_def)
  have s: "map status (localForks ?full) = [Running]"
    by (simp add: example_fork_def)
  have t1: "\<not> lookup_throws example_env (selectedAgent ?full)"
    and t2: "\<not> lookup_throws example_env (selectedAgent ?free)"
    and t3: "lookup_throws (example_env\<lparr>agents := Inherited\<rparr>) (selectedAgent ?odd)"
    by (simp_all add: lookup_throws_def example_env_def)
  obtain f1 where f1: "fst (launchSingleFork_create example_env 0 ?full) = Inr f1"
    using launchSingleFork_create_creates [OF t1] by blast
  obtain f2 where f2: "fst (launchSingleFork_create example_env 0 ?free) = Inr f2"
    using launchSingleFork_create_creates [OF t2] by blast
  show ?thesis
    using launchSingleFork_admission [OF b1, of example_env 0 f1] n1 s f1
          launchSingleFork_admission [OF b2, of example_env 0 f2] n2 f2
          launchSingleFork_admission [OF b3, of "example_env\<lparr>agents := Inherited\<rparr>" 0] t3
    by simp
qed


subsection \<open>Admission in batches\<close>

lemma launch_loop_requests:
  "snd (launch_loop env snap stagger now fs st) = (if canLaunchFork snap then map (request_of snap) fs else [])"
proof (induction fs arbitrary: now st)
  case Nil
  show ?case by simp
next
  case (Cons f fs)
  obtain st1 r where l: "launchFork env snap (now + stagger) f st = (st1, r)"
    by (cases "launchFork env snap (now + stagger) f st")
  have r: "r = (if canLaunchFork snap then Some (request_of snap f) else None)"
    using launchFork_request [of env snap "now + stagger" f st] l by simp
  show ?case
    using Cons.IH [of "now + stagger" st1] l r by (auto split: prod.splits)
qed

lemma createLocalFork_request:
  "fst (createLocalFork env now ag tier p options st) = Inr f \<Longrightarrow>
     request_of snap f =
       \<lparr>req_agent = ag, req_modelTier = tier, req_prompt = p,
        req_includeSummary = (case opt_includeSummary options of Some b \<Rightarrow> b | None \<Rightarrow> False),
        req_autoFocus = autoFocus snap\<rparr>"
  using createLocalFork_Inr [of env now ag tier p options st f] by (simp add: request_of_def)

lemma createLocalForks_throws:
  "list_ex (\<lambda>spec. lookup_throws env (fst spec)) specs \<Longrightarrow>
     fst (createLocalForks env now specs st) = Inl TypeError"
proof (induction specs arbitrary: st)
  case Nil
  then show ?case by simp
next
  case (Cons spec specs)
  obtain ag tier p options where spec: "spec = (ag, tier, p, options)" by (cases spec)
  obtain r st1 where c: "createLocalFork env now ag tier p options st = (r, st1)"
    by (cases "createLocalFork env now ag tier p options st")
  show ?case
  proof (cases "lookup_throws env ag")
    case True
    then show ?thesis
      using createLocalFork_throws [OF True, of now tier p options st] c by (simp add: spec)
  next
    case False
    then have rest: "list_ex (\<lambda>spec. lookup_throws env (fst spec)) specs"
      using Cons.prems by (simp add: spec)
    obtain f where f: "r = Inr f"
      using createLocalFork_creates [OF False, of now tier p options st] c by auto
    obtain r2 st2 where cs: "createLocalForks env now specs st1 = (r2, st2)"
      by (cases "createLocalForks env now specs st1")
    have "r2 = Inl TypeError" using Cons.IH [OF rest, of st1] cs by simp
    then show ?thesis using c f cs by (simp add: spec)
  qed
qed

lemma createLocalForks_requests:
  "\<not> list_ex (\<lambda>spec. lookup_throws env (fst spec)) specs \<Longrightarrow>
     \<exists>fs. fst (createLocalForks env now specs st) = Inr fs
        \<and> map (request_of snap) fs =
            map (\<lambda>(ag, tier, p, options).
                   \<lparr>req_agent = ag, req_modelTier = tier, req_prompt = p,
                    req_includeSummary = (case opt_includeSummary options of Some b \<Rightarrow> b | None \<Rightarrow> False),
                    req_autoFocus = autoFocus snap\<rparr>) specs"
proof (induction specs arbitrary: st)
  case Nil
  show ?case by simp
next
  case (Cons spec specs)
  obtain ag tier p options where spec: "spec = (ag, tier, p, options)" by (cases spec)
  have nt: "\<not> lookup_throws env ag" and rest: "\<not> list_ex (\<lambda>spec. lookup_throws env (fst spec)) specs"
    using Cons.prems by (simp_all add: spec)
  obtain r st1 where c: "createLocalFork env now ag tier p options st = (r, st1)"
    by (cases "createLocalFork env now ag tier p options st")
  obtain f where f: "r = Inr f"
    using createLocalFork_creates [OF nt, of now tier p options st] c by auto
  obtain fs where fs: "fst (createLocalForks env now specs st1) = Inr fs"
    and m: "map (request_of snap) fs =
            map (\<lambda>(ag, tier, p, options).
                   \<lparr>req_agent = ag, req_modelTier = tier, req_prompt = p,
                    req_includeSummary = (case opt_includeSummary options of Some b \<Rightarrow> b | None \<Rightarrow> False),
                    req_autoFocus = autoFocus snap\<rparr>) specs"
    using Cons.IH [OF rest, of st1] by blast
  obtain st2 where cs: "createLocalForks env now specs st1 = (Inr fs, st2)"
    using fs by (cases "createLocalForks env now specs st1") simp
  have "fst (createLocalForks env now (spec # specs) st) = Inr (f # fs)"
    using c f cs by (simp add: spec)
  moreover have "request_of snap f =
       \<lparr>req_agent = ag, req_modelTier = tier, req_prompt = p,
        req_includeSummary = (case opt_includeSummary options of Some b \<Rightarrow> b | None \<Rightarrow> False),
        req_autoFocus = autoFocus snap\<rparr>"
    using createLocalFork_request [of env now ag tier p options st f snap] c f by simp
  ultimately show ?case using m by (simp add: spec)
qed

text \<open>
  Claim C7. In \<^verbatim>\<open>launchMultiFork\<close> and \<^verbatim>\<open>launchWorkflow\<close> capacity is decided once, by the
  registry of the moment of the call: if \<^verbatim>\<open>canLaunchFork\<close> holds there, a create request
  is sent for every item of the batch, in order, however many items there are and
  whatever \<open>maxConcurrent\<close> is; otherwise none is sent. The staggered loop reaches the
  same decision for every item whatever the registry holds when the item is dispatched.
  (A batch with an item whose agent lookup throws ends with the error before anything is
  dispatched.)
\<close>

theorem batch_admission_decided_at_call:
  "snd (launchMultiFork env now st) =
     (if list_ex (\<lambda>item. lookup_throws env (qi_agent item)) (multiForkQueue st) then Inl TypeError
      else Inr (if canLaunchFork st
                then map (\<lambda>item. \<lparr>req_agent = qi_agent item, req_modelTier = qi_modelTier item,
                                   req_prompt = qi_prompt item, req_includeSummary = qi_includeSummary item,
                                   req_autoFocus = autoFocus st\<rparr>) (multiForkQueue st)
                else []))
   \<and> snd (launchWorkflow env now workflow st) =
     (if list_ex (\<lambda>item. lookup_throws env (wf_agent item)) (wt_forks workflow) then Inl TypeError
      else Inr (if canLaunchFork st
                then map (\<lambda>item. \<lparr>req_agent = wf_agent item, req_modelTier = wf_modelTier item,
                                   req_prompt = wf_prompt item, req_includeSummary = False,
                                   req_autoFocus = autoFocus st\<rparr>) (wt_forks workflow)
                else []))
   \<and> snd (launch_loop env st stagger t fs live) = (if canLaunchFork st then map (request_of st) fs else [])"
proof (intro conjI)
  show "snd (launch_loop env st stagger t fs live) = (if canLaunchFork st then map (request_of st) fs else [])"
    by (rule launch_loop_requests)
next
  let ?specs = "map (\<lambda>item. (qi_agent item, qi_modelTier item, qi_prompt item,
                    \<lparr>opt_includeSummary = Some (qi_includeSummary item), opt_workflowId = None\<rparr>))
                  (multiForkQueue st)"
  let ?st0 = "addTerminalLine now Workflow
                (''Launching '' @ string_of_nat (length (multiForkQueue st)) @ '' forks in sequence...'') st"
  let ?reqs = "map (\<lambda>item. \<lparr>req_agent = qi_agent item, req_modelTier = qi_modelTier item,
                         req_prompt = qi_prompt item, req_includeSummary = qi_includeSummary item,
                         req_autoFocus = autoFocus st\<rparr>) (multiForkQueue st)"
  have ex: "list_ex (\<lambda>spec. lookup_throws env (fst spec)) ?specs \<longleftrightarrow>
            list_ex (\<lambda>item. lookup_throws env (qi_agent item)) (multiForkQueue st)"
    by (simp add: list_ex_iff)
  show "snd (launchMultiFork env now st) =
     (if list_ex (\<lambda>item. lookup_throws env (qi_agent item)) (multiForkQueue st) then Inl TypeError
      else Inr (if canLaunchFork st then ?reqs else []))"
  proof (cases "multiForkQueue st = []")
    case True
    then show ?thesis by (simp add: launchMultiFork_def)
  next
    case False
    show ?thesis
    proof (cases "list_ex (\<lambda>item. lookup_throws env (qi_agent item)) (multiForkQueue st)")
      case True
      then have "fst (createLocalForks env now ?specs ?st0) = Inl TypeError"
        using createLocalForks_throws [of env ?specs now ?st0] ex by blast
      then show ?thesis
        using False True by (auto simp: launchMultiFork_def Let_def split: prod.splits sum.splits)
    next
      case no: False
      obtain newForks where c: "fst (createLocalForks env now ?specs ?st0) = Inr newForks"
        and m: "map (request_of st) newForks = ?reqs"
        using createLocalForks_requests [of env ?specs now ?st0 st] no ex by (auto simp: comp_def)
      obtain st1 where c1: "createLocalForks env now ?specs ?st0 = (Inr newForks, st1)"
        using c by (cases "createLocalForks env now ?specs ?st0") simp
      obtain st2 reqs where l:
        "launch_loop env st 500 now newForks (st1\<lparr>localForks := newForks @ localForks st1\<rparr>) = (st2, reqs)"
        by (cases "launch_loop env st 500 now newForks (st1\<lparr>localForks := newForks @ localForks st1\<rparr>)")
      have "snd (launchMultiFork env now st) = Inr reqs"
        using False c1 l by (simp add: launchMultiFork_def Let_def)
      moreover have "reqs = (if canLaunchFork st then map (request_of st) newForks else [])"
        using launch_loop_requests [of env st 500 now newForks "st1\<lparr>localForks := newForks @ localForks st1\<rparr>"] l
        by simp
      ultimately show ?thesis using no m by simp
    qed
  qed
next
  let ?specs = "map (\<lambda>item. (wf_agent item, wf_modelTier item, wf_prompt item,
                    \<lparr>opt_includeSummary = None, opt_workflowId = Some (wt_id workflow)\<rparr>))
                  (wt_forks workflow)"
  let ?st0 = "addTerminalLine now Workflow (''Launching workflow: '' @ wt_name workflow) st"
  let ?reqs = "map (\<lambda>item. \<lparr>req_agent = wf_agent item, req_modelTier = wf_modelTier item,
                         req_prompt = wf_prompt item, req_includeSummary = False,
                         req_autoFocus = autoFocus st\<rparr>) (wt_forks workflow)"
  have ex: "list_ex (\<lambda>spec. lookup_throws env (fst spec)) ?specs \<longleftrightarrow>
            list_ex (\<lambda>item. lookup_throws env (wf_agent item)) (wt_forks workflow)"
    by (simp add: list_ex_iff)
  show "snd (launchWorkflow env now workflow st) =
     (if list_ex (\<lambda>item. lookup_throws env (wf_agent item)) (wt_forks workflow) then Inl TypeError
      else Inr (if canLaunchFork st then ?reqs else []))"
  proof (cases "list_ex (\<lambda>item. lookup_throws env (wf_agent item)) (wt_forks workflow)")
    case True
    then have "fst (createLocalForks env now ?specs ?st0) = Inl TypeError"
      using createLocalForks_throws [of env ?specs now ?st0] ex by blast
    then show ?thesis
      using True by (auto simp: launchWorkflow_def Let_def split: prod.splits sum.splits)
  next
    case no: False
    obtain newForks where c: "fst (createLocalForks env now ?specs ?st0) = Inr newForks"
      and m: "map (request_of st) newForks = ?reqs"
      using createLocalForks_requests [of env ?specs now ?st0 st] no ex by (auto simp: comp_def)
    obtain st1 where c1: "createLocalForks env now ?specs ?st0 = (Inr newForks, st1)"
      using c by (cases "createLocalForks env now ?specs ?st0") simp
    obtain st2 reqs where l:
      "launch_loop env st 600 now newForks (st1\<lparr>localForks := newForks @ localForks st1\<rparr>) = (st2, reqs)"
      by (cases "launch_loop env st 600 now newForks (st1\<lparr>localForks := newForks @ localForks st1\<rparr>)")
    have "snd (launchWorkflow env now workflow st) = Inr reqs"
      using c1 l by (simp add: launchWorkflow_def Let_def)
    moreover have "reqs = (if canLaunchFork st then map (request_of st) newForks else [])"
      using launch_loop_requests [of env st 600 now newForks "st1\<lparr>localForks := newForks @ localForks st1\<rparr>"] l
      by simp
    ultimately show ?thesis using no m by simp
  qed
qed

theorem batch_admission_decided_at_call_witness:
  "map_sum id (map req_prompt) (snd (launchMultiFork example_env 0
      (initial_state 0\<lparr>maxConcurrent := 1,
                        multiForkQueue := [example_item ''a'', example_item ''b'', example_item ''c'']\<rparr>)))
     = Inr [''a'', ''b'', ''c'']
   \<and> map status (localForks (fst (launchMultiFork example_env 0
      (initial_state 0\<lparr>maxConcurrent := 1,
                        multiForkQueue := [example_item ''a'', example_item ''b'', example_item ''c'']\<rparr>))))
     = [Running, Running, Running]"
proof -
  let ?st = "initial_state 0\<lparr>maxConcurrent := 1,
                multiForkQueue := [example_item ''a'', example_item ''b'', example_item ''c'']\<rparr>"
  have c: "canLaunchFork ?st"
    by (simp add: canLaunchFork_def initial_state_def)
  have n: "\<not> list_ex (\<lambda>item. lookup_throws example_env (qi_agent item)) (multiForkQueue ?st)"
    by (simp add: lookup_throws_def example_env_def)
  have "map_sum id (map req_prompt) (snd (launchMultiFork example_env 0 ?st)) = Inr [''a'', ''b'', ''c'']"
    using batch_admission_decided_at_call [of example_env 0 ?st \<open>\<lparr>wt_id = [], wt_name = [], wt_forks = []\<rparr>\<close> 0 0 "[]" ?st] c n
    by (simp add: example_item_def)
  moreover have "map status (localForks (fst (launchMultiFork example_env 0 ?st))) = [Running, Running, Running]"
    by (simp add: launchMultiFork_def launchFork_def launchFork_begin_def launchFork_resolve_def
        apiCreateFork_def createLocalFork_def canLaunchFork_def is_active_def local_id_def
        model_name_def next_counter_def string_of_nat.simps digit_char_def
        addTerminalLine_def request_of_def initial_state_def example_env_def example_fork_def
        example_item_def Let_def)
  ultimately show ?thesis by simp
qed


subsection \<open>Placeholder ids\<close>

lemma string_of_nat_nonempty: "string_of_nat n \<noteq> []"
  by (subst string_of_nat.simps) simp

lemma digit_char_inj: "a < 10 \<Longrightarrow> b < 10 \<Longrightarrow> digit_char a = digit_char b \<Longrightarrow> a = b"
  by (simp add: digit_char_def)

lemma string_of_nat_inj: "string_of_nat m = string_of_nat n \<Longrightarrow> m = n"
proof (induction m arbitrary: n rule: string_of_nat.induct)
  case (1 m)
  show ?case
  proof (cases "m < 10")
    case small_m: True
    show ?thesis
    proof (cases "n < 10")
      case True
      then show ?thesis
        using "1.prems" small_m
        by (simp add: string_of_nat.simps [of m] string_of_nat.simps [of n] digit_char_inj)
    next
      case False
      then show ?thesis
        using "1.prems" small_m string_of_nat_nonempty [of "n div 10"]
        by (simp add: string_of_nat.simps [of m] string_of_nat.simps [of n])
    qed
  next
    case big_m: False
    show ?thesis
    proof (cases "n < 10")
      case True
      then show ?thesis
        using "1.prems" big_m string_of_nat_nonempty [of "m div 10"]
        by (simp add: string_of_nat.simps [of m] string_of_nat.simps [of n])
    next
      case False
      then have eq: "string_of_nat (m div 10) = string_of_nat (n div 10)"
        and d: "digit_char (m mod 10) = digit_char (n mod 10)"
        using "1.prems" big_m
        by (simp_all add: string_of_nat.simps [of m] string_of_nat.simps [of n])
      have "m div 10 = n div 10" using "1.IH" [OF big_m eq] .
      moreover have "m mod 10 = n mod 10" using d by (intro digit_char_inj) simp_all
      ultimately show ?thesis by (metis div_mult_mod_eq)
    qed
  qed
qed

lemma local_id_inj: "local_id m = local_id n \<Longrightarrow> m = n"
  by (simp add: local_id_def string_of_nat_inj)

lemma allForks_ids:
  "f \<in> set (allForks t st) \<Longrightarrow> fork_id f \<in> fork_id ` (set (localForks st) \<union> set (apiForks st))"
  by (auto simp: allForks_def normalize_output_def)

lemma placeholders_freshD:
  "placeholders_fresh st \<Longrightarrow> f \<in> set (localForks st) \<union> set (apiForks st) \<Longrightarrow> forkIdCounter st \<le> k
     \<Longrightarrow> fork_id f \<noteq> local_id k"
  unfolding placeholders_fresh_def by blast

lemma placeholders_fresh_next:
  assumes "placeholders_fresh st" and "f \<in> set (allForks t st)"
  shows "fork_id f \<noteq> local_id (forkIdCounter st)"
proof -
  obtain g where g: "g \<in> set (localForks st) \<union> set (apiForks st)" and e: "fork_id f = fork_id g"
    using allForks_ids [OF assms(2)] by auto
  show ?thesis using placeholders_freshD [OF assms(1) g, of "forkIdCounter st"] e by simp
qed

lemma placeholders_fresh_local:
  assumes "placeholders_fresh st"
  shows "local_id (forkIdCounter st) \<notin> fork_id ` set (localForks st)"
proof
  assume "local_id (forkIdCounter st) \<in> fork_id ` set (localForks st)"
  then obtain g where g: "g \<in> set (localForks st)" and e: "local_id (forkIdCounter st) = fork_id g"
    by auto
  then show False using placeholders_freshD [OF assms, of g "forkIdCounter st"] by simp
qed

lemma launchFork_tail:
  assumes "fork_id f \<notin> fork_id ` set old" and "localForks st = f # old"
  shows "tl (localForks (fst (launchFork env snap now f st))) = old"
    and "suffix (apiForks st) (apiForks (fst (launchFork env snap now f st)))"
proof -
  let ?sp = "\<lambda>g. if fork_id g = fork_id f then g\<lparr>status := Spawning, startedAt := now\<rparr> else g"
  have m: "\<And>h. map (\<lambda>g. if fork_id g = fork_id f then h g else g) old = old"
    using assms(1) by (rule map_if_absent)
  show "tl (localForks (fst (launchFork env snap now f st))) = old"
    using assms(2) m
    by (cases "canLaunchFork snap"; cases "gateway_create env now (request_of snap f)")
       (simp_all add: launchFork_def launchFork_begin_def launchFork_resolve_def apiCreateFork_def Let_def)
  show "suffix (apiForks st) (apiForks (fst (launchFork env snap now f st)))"
    by (cases "canLaunchFork snap"; cases "gateway_create env now (request_of snap f)")
       (simp_all add: launchFork_def launchFork_begin_def launchFork_resolve_def apiCreateFork_def Let_def
          suffix_ConsI)
qed

lemma placeholders_fresh_initial: "placeholders_fresh (initial_state t)"
  by (simp add: placeholders_fresh_def initial_state_def)

lemma placeholders_fresh_alt:
  "placeholders_fresh st \<longleftrightarrow>
     (\<forall>i \<in> set (map fork_id (localForks st)) \<union> set (map fork_id (apiForks st)).
        \<forall>k \<ge> forkIdCounter st. i \<noteq> local_id k)"
  unfolding placeholders_fresh_def by (simp add: ball_Un)

lemma placeholders_fresh_cong:
  assumes "map fork_id (localForks st') = map fork_id (localForks st)"
    and "map fork_id (apiForks st') = map fork_id (apiForks st)"
    and "forkIdCounter st' = forkIdCounter st"
  shows "placeholders_fresh st' \<longleftrightarrow> placeholders_fresh st"
  unfolding placeholders_fresh_alt assms ..

lemma map_fork_id_if:
  "(\<And>f. fork_id (h f) = fork_id f) \<Longrightarrow> map fork_id (map (\<lambda>f. if P f then h f else f) xs) = map fork_id xs"
  by (induction xs) simp_all

lemma cancelFork_ids:
  "map fork_id (localForks (cancelFork env now i st)) = map fork_id (localForks st)
   \<and> map fork_id (apiForks (cancelFork env now i st)) = map fork_id (apiForks st)
   \<and> forkIdCounter (cancelFork env now i st) = forkIdCounter st"
  by (simp add: cancelFork_def terminateFork_def Let_def map_fork_id_if del: map_map)

lemma terminateFork_ids:
  "localForks (terminateFork ok i st) = localForks st
   \<and> map fork_id (apiForks (terminateFork ok i st)) = map fork_id (apiForks st)
   \<and> forkIdCounter (terminateFork ok i st) = forkIdCounter st"
  by (simp add: terminateFork_def map_fork_id_if del: map_map)

lemma progress_tick_ids:
  "map fork_id (localForks (progress_tick env now st)) = map fork_id (localForks st)
   \<and> apiForks (progress_tick env now st) = apiForks st
   \<and> forkIdCounter (progress_tick env now st) = forkIdCounter st"
proof -
  have "map fork_id (map (\<lambda>i. tick_fork now (random_tick env now i) (localForks st ! i))
                       [0..<length (localForks st)]) = map fork_id (localForks st)"
    by (rule nth_equalityI) (simp_all add: tick_fork_id)
  then show ?thesis by (simp add: progress_tick_def)
qed

lemma apply_op_ids:
  "map fork_id (localForks (apply_op env now op st)) = map fork_id (localForks st)
   \<and> map fork_id (apiForks (apply_op env now op st)) = map fork_id (apiForks st)
   \<and> forkIdCounter (apply_op env now op st) = forkIdCounter st"
proof (cases op)
  case (CancelFork i)
  then show ?thesis using cancelFork_ids [of env now i st] by simp
next
  case (TerminateFork i)
  then show ?thesis using terminateFork_ids [of "gateway_terminate env now i" i st] by simp
next
  case (ChannelMessage msg)
  have "forkIdCounter (on_message now msg st) = forkIdCounter st" by (cases msg) simp_all
  then show ?thesis using ChannelMessage by (simp add: on_message_ids on_message_localForks)
next
  case ProgressTick
  then show ?thesis using progress_tick_ids [of env now st] by simp
qed

lemma placeholders_fresh_apply_op:
  "placeholders_fresh st \<Longrightarrow> placeholders_fresh (apply_op env now op st)"
  using placeholders_fresh_cong [of "apply_op env now op st" st] apply_op_ids [of env now op st] by simp

lemma placeholders_fresh_run_ops:
  "placeholders_fresh st \<Longrightarrow> placeholders_fresh (run_ops env ops st)"
proof (induction ops arbitrary: st)
  case Nil
  then show ?case by simp
next
  case (Cons a ops)
  obtain now op where a: "a = (now, op)" by (cases a)
  show ?case using Cons a by (simp add: placeholders_fresh_apply_op)
qed

lemma placeholders_fresh_subset:
  assumes "placeholders_fresh st" and "forkIdCounter st' = forkIdCounter st"
    and "set (map fork_id (localForks st')) \<union> set (map fork_id (apiForks st'))
           \<subseteq> set (map fork_id (localForks st)) \<union> set (map fork_id (apiForks st)) \<union> extra"
    and "\<And>i k. i \<in> extra \<Longrightarrow> i \<noteq> local_id k"
  shows "placeholders_fresh st'"
  unfolding placeholders_fresh_alt
proof (intro ballI allI impI)
  fix i k
  assume i: "i \<in> set (map fork_id (localForks st')) \<union> set (map fork_id (apiForks st'))"
    and k: "forkIdCounter st' \<le> k"
  from i assms(3) consider "i \<in> set (map fork_id (localForks st)) \<union> set (map fork_id (apiForks st))" | "i \<in> extra"
    by blast
  then show "i \<noteq> local_id k"
  proof cases
    case 1
    then show ?thesis using assms(1,2) k unfolding placeholders_fresh_alt by simp
  next
    case 2
    then show ?thesis by (rule assms(4))
  qed
qed

lemma launchFork_ids:
  "forkIdCounter (fst (launchFork env snap now f st)) = forkIdCounter st
   \<and> set (map fork_id (localForks (fst (launchFork env snap now f st))))
        \<union> set (map fork_id (apiForks (fst (launchFork env snap now f st))))
      \<subseteq> set (map fork_id (localForks st)) \<union> set (map fork_id (apiForks st))
          \<union> fork_id ` set_option (gateway_create env now (request_of snap f))"
  by (cases "canLaunchFork snap"; cases "gateway_create env now (request_of snap f)")
     (auto simp: launchFork_def launchFork_begin_def launchFork_resolve_def apiCreateFork_def
        addTerminalLine_def Let_def intro: rev_image_eqI)

lemma placeholders_fresh_launchFork:
  assumes "placeholders_fresh st"
    and "\<And>r k. gateway_create env now (request_of snap f) = Some r \<Longrightarrow> fork_id r \<noteq> local_id k"
  shows "placeholders_fresh (fst (launchFork env snap now f st))"
proof (rule placeholders_fresh_subset [OF assms(1)])
  show "forkIdCounter (fst (launchFork env snap now f st)) = forkIdCounter st"
    using launchFork_ids [of env snap now f st] by simp
  show "set (map fork_id (localForks (fst (launchFork env snap now f st))))
        \<union> set (map fork_id (apiForks (fst (launchFork env snap now f st))))
      \<subseteq> set (map fork_id (localForks st)) \<union> set (map fork_id (apiForks st))
          \<union> fork_id ` set_option (gateway_create env now (request_of snap f))"
    using launchFork_ids [of env snap now f st] by simp
  show "\<And>i k. i \<in> fork_id ` set_option (gateway_create env now (request_of snap f)) \<Longrightarrow> i \<noteq> local_id k"
    using assms(2) by (cases "gateway_create env now (request_of snap f)") auto
qed


subsection \<open>The placeholder invariant along runs\<close>

lemma placeholders_fresh_ids: "placeholders_fresh st \<longleftrightarrow> ids_fresh (forkIdCounter st) (registry_ids st)"
  unfolding placeholders_fresh_def ids_fresh_def registry_ids_def by simp

lemma ids_fresh_mono: "ids_fresh c ids \<Longrightarrow> c \<le> c' \<Longrightarrow> ids_fresh c' ids"
  unfolding ids_fresh_def by (meson order_trans)

lemma ids_fresh_subset: "ids_fresh c ids \<Longrightarrow> ids' \<subseteq> ids \<Longrightarrow> ids_fresh c ids'"
  unfolding ids_fresh_def by blast

lemma ids_fresh_Un: "ids_fresh c (A \<union> B) \<longleftrightarrow> ids_fresh c A \<and> ids_fresh c B"
  unfolding ids_fresh_def by blast

lemma has_local_prefix_local_id: "has_local_prefix (local_id k)"
  by (simp add: has_local_prefix_def local_id_def)

lemma ids_fresh_clean: "(\<And>i. i \<in> ids \<Longrightarrow> \<not> has_local_prefix i) \<Longrightarrow> ids_fresh c ids"
  unfolding ids_fresh_def using has_local_prefix_local_id by metis

lemma ids_fresh_issued: "c < c' \<Longrightarrow> ids_fresh c' {local_id c}"
  unfolding ids_fresh_def using local_id_inj by fastforce

lemma fresh_step:
  assumes "placeholders_fresh st" and "forkIdCounter st \<le> forkIdCounter st'"
    and "registry_ids st' \<subseteq> registry_ids st \<union> extra" and "ids_fresh (forkIdCounter st') extra"
  shows "placeholders_fresh st'"
proof -
  have "ids_fresh (forkIdCounter st') (registry_ids st)"
    using assms(1,2) by (simp add: placeholders_fresh_ids ids_fresh_mono)
  then have "ids_fresh (forkIdCounter st') (registry_ids st \<union> extra)"
    using assms(4) by (simp add: ids_fresh_Un)
  then show ?thesis
    using assms(3) by (simp add: placeholders_fresh_ids ids_fresh_subset)
qed

lemma next_counter_ge: "c \<le> next_counter c"
  by (simp add: next_counter_def)

lemma next_counter_below: "next_counter c < 9007199254740992 \<Longrightarrow> c < next_counter c"
  by (simp add: next_counter_def split: if_splits)

lemma launchFork_counter: "forkIdCounter (fst (launchFork env snap now f st)) = forkIdCounter st"
  using launchFork_ids [of env snap now f st] by simp

lemma launch_loop_counter:
  "forkIdCounter (fst (launch_loop env snap stagger now fs st)) = forkIdCounter st"
proof (induction fs arbitrary: now st)
  case Nil
  show ?case by simp
next
  case (Cons f fs)
  obtain st1 r where l: "launchFork env snap (now + stagger) f st = (st1, r)"
    by (cases "launchFork env snap (now + stagger) f st")
  obtain st2 rs where l2: "launch_loop env snap stagger (now + stagger) fs st1 = (st2, rs)"
    by (cases "launch_loop env snap stagger (now + stagger) fs st1")
  show ?case
    using Cons.IH [of "now + stagger" st1] launchFork_counter [of env snap "now + stagger" f st] l l2
    by simp
qed

lemma launchFork_fresh:
  assumes "gateway_ids_clean env" and "placeholders_fresh st"
  shows "placeholders_fresh (fst (launchFork env snap now f st))"
proof (rule placeholders_fresh_launchFork [OF assms(2)])
  fix r k
  assume "gateway_create env now (request_of snap f) = Some r"
  then have "\<not> has_local_prefix (fork_id r)"
    using assms(1) unfolding gateway_ids_clean_def by blast
  then show "fork_id r \<noteq> local_id k"
    using has_local_prefix_local_id [of k] by auto
qed

lemma launch_loop_fresh:
  assumes "gateway_ids_clean env"
  shows "placeholders_fresh st \<Longrightarrow>
     placeholders_fresh (fst (launch_loop env snap stagger now fs st))
     \<and> forkIdCounter (fst (launch_loop env snap stagger now fs st)) = forkIdCounter st"
proof (induction fs arbitrary: now st)
  case Nil
  then show ?case by simp
next
  case (Cons f fs)
  obtain st1 r where l: "launchFork env snap (now + stagger) f st = (st1, r)"
    by (cases "launchFork env snap (now + stagger) f st")
  have f1: "placeholders_fresh st1" and c1: "forkIdCounter st1 = forkIdCounter st"
    using launchFork_fresh [OF assms Cons.prems, of snap "now + stagger" f]
          launchFork_counter [of env snap "now + stagger" f st] l by simp_all
  obtain st2 rs where l2: "launch_loop env snap stagger (now + stagger) fs st1 = (st2, rs)"
    by (cases "launch_loop env snap stagger (now + stagger) fs st1")
  have "fst (launch_loop env snap stagger now (f # fs) st) = st2"
    using l l2 by simp
  then show ?case
    using Cons.IH [OF f1, of "now + stagger"] l2 c1 by simp
qed

lemma createLocalForks_snd:
  "\<exists>c'. snd (createLocalForks env now specs st) = st\<lparr>forkIdCounter := c'\<rparr> \<and> forkIdCounter st \<le> c'"
proof (induction specs arbitrary: st)
  case Nil
  have "st = st\<lparr>forkIdCounter := forkIdCounter st\<rparr>" by simp
  then show ?case by (metis createLocalForks.simps(1) order_refl snd_conv)
next
  case (Cons spec specs)
  obtain ag tier p options where spec: "spec = (ag, tier, p, options)" by (cases spec)
  let ?st1 = "st\<lparr>forkIdCounter := next_counter (forkIdCounter st)\<rparr>"
  obtain r where c: "createLocalFork env now ag tier p options st = (r, ?st1)"
    using createLocalFork_snd [of env now ag tier p options st]
    by (cases "createLocalFork env now ag tier p options st") simp
  obtain c' where s: "snd (createLocalForks env now specs ?st1) = ?st1\<lparr>forkIdCounter := c'\<rparr>"
    and le: "forkIdCounter ?st1 \<le> c'"
    using Cons.IH [of ?st1] by blast
  have le': "forkIdCounter st \<le> c'"
    using le next_counter_ge [of "forkIdCounter st"] by simp
  show ?case
  proof (cases r)
    case (Inl e)
    then have "snd (createLocalForks env now (spec # specs) st) = st\<lparr>forkIdCounter := next_counter (forkIdCounter st)\<rparr>"
      using c by (simp add: spec)
    then show ?thesis using next_counter_ge [of "forkIdCounter st"] by blast
  next
    case (Inr f)
    obtain r2 st2 where cs: "createLocalForks env now specs ?st1 = (r2, st2)"
      by (cases "createLocalForks env now specs ?st1")
    have "snd (createLocalForks env now (spec # specs) st) = st2"
      using c cs Inr by (cases r2) (simp_all add: spec)
    moreover have "st2 = st\<lparr>forkIdCounter := c'\<rparr>" using s cs by simp
    ultimately show ?thesis using le' by blast
  qed
qed

lemma createLocalForks_ids_fresh:
  "fst (createLocalForks env now specs st) = Inr fs \<Longrightarrow>
   forkIdCounter (snd (createLocalForks env now specs st)) < 9007199254740992 \<Longrightarrow>
     ids_fresh (forkIdCounter (snd (createLocalForks env now specs st))) (fork_id ` set fs)"
proof (induction specs arbitrary: st fs)
  case Nil
  then show ?case by (simp add: ids_fresh_def)
next
  case (Cons spec specs)
  obtain ag tier p options where spec: "spec = (ag, tier, p, options)" by (cases spec)
  let ?st1 = "st\<lparr>forkIdCounter := next_counter (forkIdCounter st)\<rparr>"
  obtain r where c: "createLocalFork env now ag tier p options st = (r, ?st1)"
    using createLocalFork_snd [of env now ag tier p options st]
    by (cases "createLocalFork env now ag tier p options st") simp
  obtain r2 st2 where cs: "createLocalForks env now specs ?st1 = (r2, st2)"
    by (cases "createLocalForks env now specs ?st1")
  obtain f fs' where r: "r = Inr f" and r2: "r2 = Inr fs'" and fs: "fs = f # fs'"
    using Cons.prems(1) c cs by (auto simp: spec split: sum.splits)
  have fin: "snd (createLocalForks env now (spec # specs) st) = st2"
    using c cs r r2 by (simp add: spec)
  have b: "forkIdCounter st2 < 9007199254740992" using Cons.prems(2) fin by simp
  have le: "next_counter (forkIdCounter st) \<le> forkIdCounter st2"
    using createLocalForks_snd [of env now specs ?st1] cs by auto
  have tail: "ids_fresh (forkIdCounter st2) (fork_id ` set fs')"
    using Cons.IH [of ?st1 fs'] cs r2 b by simp
  have "forkIdCounter st < next_counter (forkIdCounter st)"
    using next_counter_below [of "forkIdCounter st"] le b by simp
  then have "forkIdCounter st < forkIdCounter st2" using le by simp
  moreover have "fork_id f = local_id (forkIdCounter st)"
    using createLocalFork_Inr [of env now ag tier p options st f] c r by simp
  ultimately have "ids_fresh (forkIdCounter st2) {fork_id f}"
    by (simp add: ids_fresh_issued)
  then show ?case using tail fin fs by (simp add: ids_fresh_def)
qed

text \<open>Creating forks and putting them in front of the local registry keeps the invariant.\<close>

lemma created_fresh:
  assumes "placeholders_fresh st" and "createLocalForks env now specs st = (Inr fs, st1)"
    and "forkIdCounter st1 < 9007199254740992"
  shows "placeholders_fresh (st1\<lparr>localForks := fs @ localForks st1\<rparr>)"
proof (rule fresh_step [OF assms(1)])
  have f: "fst (createLocalForks env now specs st) = Inr fs"
    and s: "snd (createLocalForks env now specs st) = st1"
    using assms(2) by simp_all
  obtain c' where s1: "st1 = st\<lparr>forkIdCounter := c'\<rparr>" and le: "forkIdCounter st \<le> c'"
    using createLocalForks_snd [of env now specs st] s by auto
  show "forkIdCounter st \<le> forkIdCounter (st1\<lparr>localForks := fs @ localForks st1\<rparr>)"
    using s1 le by simp
  show "registry_ids (st1\<lparr>localForks := fs @ localForks st1\<rparr>) \<subseteq> registry_ids st \<union> fork_id ` set fs"
    using s1 by (auto simp: registry_ids_def)
  have "ids_fresh (forkIdCounter (snd (createLocalForks env now specs st))) (fork_id ` set fs)"
    by (rule createLocalForks_ids_fresh [OF f]) (simp add: s assms(3))
  then show "ids_fresh (forkIdCounter (st1\<lparr>localForks := fs @ localForks st1\<rparr>)) (fork_id ` set fs)"
    by (simp add: s)
qed

lemma createLocalForks_single:
  "createLocalForks env now [(ag, tier, p, options)] st =
     (case createLocalFork env now ag tier p options st of
        (Inl e, st1) \<Rightarrow> (Inl e, st1) | (Inr f, st1) \<Rightarrow> (Inr [f], st1))"
  by (simp split: prod.splits sum.splits)

lemma thrown_fresh:
  assumes "placeholders_fresh st" and "forkIdCounter st \<le> c'"
  shows "placeholders_fresh (st\<lparr>forkIdCounter := c'\<rparr>)"
  by (rule fresh_step [OF assms(1), of _ "{}"]) (simp_all add: assms(2) registry_ids_def ids_fresh_def)


lemma placeholders_fresh_same:
  "registry_ids st' = registry_ids st \<Longrightarrow> forkIdCounter st' = forkIdCounter st
     \<Longrightarrow> placeholders_fresh st' \<longleftrightarrow> placeholders_fresh st"
  by (simp add: placeholders_fresh_ids)

lemma addTerminalLine_fresh: "placeholders_fresh (addTerminalLine now ty txt st) \<longleftrightarrow> placeholders_fresh st"
  by (rule placeholders_fresh_same) (simp_all add: registry_ids_def)

lemma single_created_fresh:
  assumes "placeholders_fresh st" and "createLocalFork env now ag tier p options st = (Inr f, st1)"
    and "forkIdCounter st1 < 9007199254740992"
  shows "placeholders_fresh (st1\<lparr>localForks := f # localForks st1\<rparr>)"
proof -
  have c: "createLocalForks env now [(ag, tier, p, options)] st = (Inr [f], st1)"
    using assms(2) by (simp add: createLocalForks_single)
  show ?thesis
    using created_fresh [OF assms(1) c assms(3)] by simp
qed

lemma create_then_launch:
  assumes "createLocalFork env now ag tier p options st = (Inr f, st1)"
    and "launchFork env snap t f (st1\<lparr>localForks := f # localForks st1\<rparr>) = (st3, req)"
  shows "forkIdCounter st \<le> forkIdCounter st3"
    and "gateway_ids_clean env \<Longrightarrow> placeholders_fresh st \<Longrightarrow> forkIdCounter st3 < 9007199254740992
           \<Longrightarrow> placeholders_fresh st3"
proof -
  have s1: "st1 = st\<lparr>forkIdCounter := next_counter (forkIdCounter st)\<rparr>"
    using createLocalFork_snd [of env now ag tier p options st] assms(1) by simp
  have c3: "forkIdCounter st3 = forkIdCounter st1"
    using launchFork_counter [of env snap t f "st1\<lparr>localForks := f # localForks st1\<rparr>"] assms(2) by simp
  show "forkIdCounter st \<le> forkIdCounter st3"
    using c3 s1 next_counter_ge [of "forkIdCounter st"] by simp
  assume clean: "gateway_ids_clean env" and fresh: "placeholders_fresh st"
    and b: "forkIdCounter st3 < 9007199254740992"
  have "placeholders_fresh (st1\<lparr>localForks := f # localForks st1\<rparr>)"
    using single_created_fresh [OF fresh assms(1)] b c3 by simp
  then show "placeholders_fresh st3"
    using launchFork_fresh [OF clean, of "st1\<lparr>localForks := f # localForks st1\<rparr>" snap t f] assms(2) by simp
qed

lemma create_thrown:
  assumes "createLocalFork env now ag tier p options st = (Inl e, st1)"
  shows "forkIdCounter st \<le> forkIdCounter st1" and "placeholders_fresh st \<Longrightarrow> placeholders_fresh st1"
proof -
  have s1: "st1 = st\<lparr>forkIdCounter := next_counter (forkIdCounter st)\<rparr>"
    using createLocalFork_snd [of env now ag tier p options st] assms by simp
  show "forkIdCounter st \<le> forkIdCounter st1" using s1 next_counter_ge [of "forkIdCounter st"] by simp
  assume "placeholders_fresh st"
  then show "placeholders_fresh st1"
    using thrown_fresh [of st "next_counter (forkIdCounter st)"] s1 next_counter_ge [of "forkIdCounter st"]
    by simp
qed

lemma launchSingleFork_run:
  "forkIdCounter st \<le> forkIdCounter (fst (launchSingleFork env now st))
   \<and> (gateway_ids_clean env \<longrightarrow> placeholders_fresh st \<longrightarrow>
        forkIdCounter (fst (launchSingleFork env now st)) < 9007199254740992 \<longrightarrow>
        placeholders_fresh (fst (launchSingleFork env now st)))"
proof (cases "is_blank (promptInput st)")
  case True
  then show ?thesis by (simp add: launchSingleFork_def)
next
  case False
  let ?options = "\<lparr>opt_includeSummary = Some (selIncludeSummary st), opt_workflowId = None\<rparr>"
  obtain r st1 where c:
    "createLocalFork env now (selectedAgent st) (selModelTier st) (promptInput st) ?options st = (r, st1)"
    by (cases "createLocalFork env now (selectedAgent st) (selModelTier st) (promptInput st) ?options st")
  show ?thesis
  proof (cases r)
    case (Inl e)
    then have "fst (launchSingleFork env now st) = st1"
      using False c by (simp add: launchSingleFork_def launchSingleFork_create_def)
    then show ?thesis using create_thrown [of env now _ _ _ _ st e st1] c Inl by simp
  next
    case (Inr f)
    obtain st3 req where l: "launchFork env st (now + 300) f (st1\<lparr>localForks := f # localForks st1\<rparr>) = (st3, req)"
      by (cases "launchFork env st (now + 300) f (st1\<lparr>localForks := f # localForks st1\<rparr>)")
    have res: "fst (launchSingleFork env now st) = st3\<lparr>promptInput := []\<rparr>"
      using False c Inr l by (simp add: launchSingleFork_def launchSingleFork_create_def)
    have same: "placeholders_fresh (st3\<lparr>promptInput := []\<rparr>) \<longleftrightarrow> placeholders_fresh st3"
      by (rule placeholders_fresh_same) (simp_all add: registry_ids_def)
    show ?thesis
      using create_then_launch [of env now _ _ _ _ st f st1 st "now + 300" st3 req] c Inr l res same
      by simp
  qed
qed

lemma retryFork_run:
  "forkIdCounter st \<le> forkIdCounter (fst (retryFork env now fork st))
   \<and> (gateway_ids_clean env \<longrightarrow> placeholders_fresh st \<longrightarrow>
        forkIdCounter (fst (retryFork env now fork st)) < 9007199254740992 \<longrightarrow>
        placeholders_fresh (fst (retryFork env now fork st)))"
proof -
  let ?options = "\<lparr>opt_includeSummary = Some (includeSummary fork), opt_workflowId = workflowId fork\<rparr>"
  obtain r st1 where c:
    "createLocalFork env now (agent fork) (modelTier fork) (task fork) ?options st = (r, st1)"
    by (cases "createLocalFork env now (agent fork) (modelTier fork) (task fork) ?options st")
  show ?thesis
  proof (cases r)
    case (Inl e)
    then have "fst (retryFork env now fork st) = st1"
      using c by (simp add: retryFork_def retryFork_create_def)
    then show ?thesis using create_thrown [of env now _ _ _ _ st e st1] c Inl by simp
  next
    case (Inr f)
    obtain st3 req where l: "launchFork env st (now + 300) f (st1\<lparr>localForks := f # localForks st1\<rparr>) = (st3, req)"
      by (cases "launchFork env st (now + 300) f (st1\<lparr>localForks := f # localForks st1\<rparr>)")
    have res: "fst (retryFork env now fork st) = st3"
      using c Inr l by (simp add: retryFork_def retryFork_create_def)
    show ?thesis
      using create_then_launch [of env now _ _ _ _ st f st1 st "now + 300" st3 req] c Inr l res
      by simp
  qed
qed

lemma batch_run:
  assumes "createLocalForks env now specs st0 = (r, st1)"
    and "registry_ids st0 = registry_ids st" and "forkIdCounter st0 = forkIdCounter st"
    and "res = (case r of Inl e \<Rightarrow> st1
                | Inr newForks \<Rightarrow> fst (launch_loop env snap stagger t newForks (st1\<lparr>localForks := newForks @ localForks st1\<rparr>)))"
  shows "forkIdCounter st \<le> forkIdCounter res
   \<and> (gateway_ids_clean env \<longrightarrow> placeholders_fresh st \<longrightarrow> forkIdCounter res < 9007199254740992 \<longrightarrow>
        placeholders_fresh res)"
proof -
  obtain c' where s1: "st1 = st0\<lparr>forkIdCounter := c'\<rparr>" and le: "forkIdCounter st0 \<le> c'"
    using createLocalForks_snd [of env now specs st0] assms(1) by auto
  have f0: "placeholders_fresh st0 \<longleftrightarrow> placeholders_fresh st"
    using assms(2,3) by (rule placeholders_fresh_same)
  show ?thesis
  proof (cases r)
    case (Inl e)
    then have "res = st1" using assms(4) by simp
    then show ?thesis
      using s1 le assms(3) f0 thrown_fresh [of st0 c'] by simp
  next
    case (Inr newForks)
    let ?st2 = "st1\<lparr>localForks := newForks @ localForks st1\<rparr>"
    have res: "res = fst (launch_loop env snap stagger t newForks ?st2)"
      using assms(4) Inr by simp
    have cnt: "forkIdCounter st \<le> forkIdCounter ?st2" using s1 le assms(3) by simp
    {
      assume clean: "gateway_ids_clean env" and fresh: "placeholders_fresh st"
        and b: "forkIdCounter ?st2 < 9007199254740992"
      have f0': "placeholders_fresh st0" using f0 fresh by simp
      have c0: "createLocalForks env now specs st0 = (Inr newForks, st1)" using assms(1) Inr by simp
      have b0: "forkIdCounter st1 < 9007199254740992" using b by simp
      have "placeholders_fresh ?st2"
        by (rule created_fresh [OF f0' c0 b0])
      then have "placeholders_fresh (fst (launch_loop env snap stagger t newForks ?st2))
          \<and> forkIdCounter (fst (launch_loop env snap stagger t newForks ?st2)) = forkIdCounter ?st2"
        by (rule launch_loop_fresh [OF clean])
    }
    moreover have "gateway_ids_clean env \<longrightarrow> forkIdCounter (fst (launch_loop env snap stagger t newForks ?st2)) = forkIdCounter ?st2"
      using launch_loop_counter [of env snap stagger t newForks ?st2] by simp
    moreover have "forkIdCounter (fst (launch_loop env snap stagger t newForks ?st2)) = forkIdCounter ?st2"
      by (rule launch_loop_counter)
    ultimately show ?thesis using res cnt by auto
  qed
qed

lemma launchMultiFork_run:
  "forkIdCounter st \<le> forkIdCounter (fst (launchMultiFork env now st))
   \<and> (gateway_ids_clean env \<longrightarrow> placeholders_fresh st \<longrightarrow>
        forkIdCounter (fst (launchMultiFork env now st)) < 9007199254740992 \<longrightarrow>
        placeholders_fresh (fst (launchMultiFork env now st)))"
proof (cases "multiForkQueue st = []")
  case True
  then show ?thesis by (simp add: launchMultiFork_def)
next
  case False
  let ?specs = "map (\<lambda>item. (qi_agent item, qi_modelTier item, qi_prompt item,
                    \<lparr>opt_includeSummary = Some (qi_includeSummary item), opt_workflowId = None\<rparr>))
                  (multiForkQueue st)"
  let ?st0 = "addTerminalLine now Workflow
                (''Launching '' @ string_of_nat (length (multiForkQueue st)) @ '' forks in sequence...'') st"
  obtain r st1 where c: "createLocalForks env now ?specs ?st0 = (r, st1)"
    by (cases "createLocalForks env now ?specs ?st0")
  let ?res = "case r of Inl e \<Rightarrow> st1
              | Inr newForks \<Rightarrow> fst (launch_loop env st 500 now newForks (st1\<lparr>localForks := newForks @ localForks st1\<rparr>))"
  have m: "forkIdCounter (fst (launchMultiFork env now st)) = forkIdCounter ?res
      \<and> registry_ids (fst (launchMultiFork env now st)) = registry_ids ?res"
    using False c
    by (cases r) (auto simp: launchMultiFork_def Let_def registry_ids_def split: prod.splits)
  have "forkIdCounter st \<le> forkIdCounter ?res
   \<and> (gateway_ids_clean env \<longrightarrow> placeholders_fresh st \<longrightarrow> forkIdCounter ?res < 9007199254740992 \<longrightarrow>
        placeholders_fresh ?res)"
    by (rule batch_run [OF c]) (simp_all add: registry_ids_def)
  then show ?thesis
    using m placeholders_fresh_same [of "fst (launchMultiFork env now st)" ?res] by auto
qed

lemma launchWorkflow_run:
  "forkIdCounter st \<le> forkIdCounter (fst (launchWorkflow env now workflow st))
   \<and> (gateway_ids_clean env \<longrightarrow> placeholders_fresh st \<longrightarrow>
        forkIdCounter (fst (launchWorkflow env now workflow st)) < 9007199254740992 \<longrightarrow>
        placeholders_fresh (fst (launchWorkflow env now workflow st)))"
proof -
  let ?specs = "map (\<lambda>item. (wf_agent item, wf_modelTier item, wf_prompt item,
                    \<lparr>opt_includeSummary = None, opt_workflowId = Some (wt_id workflow)\<rparr>))
                  (wt_forks workflow)"
  let ?st0 = "addTerminalLine now Workflow (''Launching workflow: '' @ wt_name workflow) st"
  obtain r st1 where c: "createLocalForks env now ?specs ?st0 = (r, st1)"
    by (cases "createLocalForks env now ?specs ?st0")
  let ?res = "case r of Inl e \<Rightarrow> st1
              | Inr newForks \<Rightarrow> fst (launch_loop env st 600 now newForks (st1\<lparr>localForks := newForks @ localForks st1\<rparr>))"
  have m: "fst (launchWorkflow env now workflow st) = ?res"
    using c by (cases r) (auto simp: launchWorkflow_def Let_def split: prod.splits)
  have "forkIdCounter st \<le> forkIdCounter ?res
   \<and> (gateway_ids_clean env \<longrightarrow> placeholders_fresh st \<longrightarrow> forkIdCounter ?res < 9007199254740992 \<longrightarrow>
        placeholders_fresh ?res)"
    by (rule batch_run [OF c]) (simp_all add: registry_ids_def)
  then show ?thesis using m by simp
qed

lemma clearHistory_run:
  "forkIdCounter (clearHistory now st) = forkIdCounter st
   \<and> (placeholders_fresh st \<longrightarrow> placeholders_fresh (clearHistory now st))"
proof -
  have "placeholders_fresh st \<Longrightarrow> placeholders_fresh (clearHistory now st)"
    by (rule fresh_step [of st _ "{}"]) (auto simp: clearHistory_def registry_ids_def ids_fresh_def)
  then show ?thesis by (auto simp: clearHistory_def)
qed

lemma fetchForks_run:
  "forkIdCounter (fetchForks result st) = forkIdCounter st
   \<and> (fetched_ids_clean (FetchForks result) \<longrightarrow> placeholders_fresh st \<longrightarrow>
        placeholders_fresh (fetchForks result st))"
proof (cases result)
  case None
  then show ?thesis by (simp add: fetchForks_def)
next
  case (Some data)
  have "fetched_ids_clean (FetchForks result) \<Longrightarrow> placeholders_fresh st
          \<Longrightarrow> placeholders_fresh (fetchForks result st)"
  proof (rule fresh_step [of st _ "fork_id ` set data"])
    show "forkIdCounter st \<le> forkIdCounter (fetchForks result st)"
      using Some by (simp add: fetchForks_def)
    show "registry_ids (fetchForks result st) \<subseteq> registry_ids st \<union> fork_id ` set data"
      using Some by (auto simp: fetchForks_def registry_ids_def)
    assume "fetched_ids_clean (FetchForks result)"
    then show "ids_fresh (forkIdCounter (fetchForks result st)) (fork_id ` set data)"
      using Some by (intro ids_fresh_clean) (auto simp: list_all_iff)
  qed
  then show ?thesis using Some by (auto simp: fetchForks_def)
qed

lemma client_step_run:
  "forkIdCounter st \<le> forkIdCounter (client_step env now a st)
   \<and> (gateway_ids_clean env \<longrightarrow> fetched_ids_clean a \<longrightarrow> placeholders_fresh st \<longrightarrow>
        forkIdCounter (client_step env now a st) < 9007199254740992 \<longrightarrow>
        placeholders_fresh (client_step env now a st))"
proof (cases a)
  case LaunchSingle
  then show ?thesis using launchSingleFork_run [of st env now] by simp
next
  case LaunchMulti
  then show ?thesis using launchMultiFork_run [of st env now] by simp
next
  case (LaunchWorkflow workflow)
  then show ?thesis using launchWorkflow_run [of st env now workflow] by simp
next
  case (Retry fork)
  then show ?thesis using retryFork_run [of st env now fork] by simp
next
  case ClearHistory
  then show ?thesis using clearHistory_run [of now st] by simp
next
  case (FetchForks result)
  then show ?thesis using fetchForks_run [of result st] by simp
next
  case (Perform op)
  then show ?thesis
    using apply_op_ids [of env now op st] placeholders_fresh_apply_op [of st env now op] by simp
next
  case (SetLaunchPanel ag tier p summary)
  have "placeholders_fresh (client_step env now a st) \<longleftrightarrow> placeholders_fresh st"
    using SetLaunchPanel by (intro placeholders_fresh_same) (simp_all add: registry_ids_def)
  then show ?thesis using SetLaunchPanel by simp
next
  case (SetQueue items)
  have "placeholders_fresh (client_step env now a st) \<longleftrightarrow> placeholders_fresh st"
    using SetQueue by (intro placeholders_fresh_same) (simp_all add: registry_ids_def)
  then show ?thesis using SetQueue by simp
next
  case (SetSettings maxc focus)
  have "placeholders_fresh (client_step env now a st) \<longleftrightarrow> placeholders_fresh st"
    using SetSettings by (intro placeholders_fresh_same) (simp_all add: registry_ids_def)
  then show ?thesis using SetSettings by simp
qed

lemma run_actions_counter: "forkIdCounter st \<le> forkIdCounter (run_actions env acts st)"
proof (induction acts arbitrary: st)
  case Nil
  show ?case by simp
next
  case (Cons timed acts)
  obtain now a where t: "timed = (now, a)" by (cases timed)
  show ?case
    using client_step_run [of st env now a] Cons.IH [of "client_step env now a st"]
    by (simp add: t)
qed

lemma run_actions_fresh:
  assumes "gateway_ids_clean env"
  shows "list_all (\<lambda>timed. fetched_ids_clean (snd timed)) acts \<Longrightarrow> placeholders_fresh st \<Longrightarrow>
     forkIdCounter (run_actions env acts st) < 9007199254740992 \<Longrightarrow>
     placeholders_fresh (run_actions env acts st)"
proof (induction acts arbitrary: st)
  case Nil
  then show ?case by simp
next
  case (Cons timed acts)
  obtain now a where t: "timed = (now, a)" by (cases timed)
  let ?st1 = "client_step env now a st"
  have b1: "forkIdCounter ?st1 < 9007199254740992"
    using run_actions_counter [of ?st1 env acts] Cons.prems(3) by (simp add: t)
  have "placeholders_fresh ?st1"
    using client_step_run [of st env now a] assms Cons.prems(1,2) b1 by (simp add: t)
  then show ?case
    using Cons.IH [of ?st1] Cons.prems(1,3) by (simp add: t)
qed


subsection \<open>Retry\<close>

lemma retryFork_create_Inr:
  "fst (retryFork_create env now fork st) = Inr newFork \<Longrightarrow>
     localForks (snd (retryFork_create env now fork st)) = newFork # localForks st
     \<and> apiForks (snd (retryFork_create env now fork st)) = apiForks st
     \<and> fork_id newFork = local_id (forkIdCounter st)
     \<and> status newFork = Queued
     \<and> agent newFork = agent fork
     \<and> modelTier newFork = modelTier fork
     \<and> task newFork = task fork
     \<and> includeSummary newFork = includeSummary fork
     \<and> workflowId newFork = workflowId fork"
  using createLocalFork_Inr [of env now "agent fork" "modelTier fork" "task fork"
          "\<lparr>opt_includeSummary = Some (includeSummary fork), opt_workflowId = workflowId fork\<rparr>" st newFork]
        createLocalFork_snd [of env now "agent fork" "modelTier fork" "task fork"
          "\<lparr>opt_includeSummary = Some (includeSummary fork), opt_workflowId = workflowId fork\<rparr>" st]
  by (auto simp: retryFork_create_def split: prod.splits sum.splits)

lemma retryFork_create_throws:
  "lookup_throws env (agent fork) \<Longrightarrow>
     retryFork_create env now fork st = (Inl TypeError, st\<lparr>forkIdCounter := next_counter (forkIdCounter st)\<rparr>)"
  using createLocalFork_throws [of env "agent fork" now "modelTier fork" "task fork"
          "\<lparr>opt_includeSummary = Some (includeSummary fork), opt_workflowId = workflowId fork\<rparr>" st]
        createLocalFork_snd [of env now "agent fork" "modelTier fork" "task fork"
          "\<lparr>opt_includeSummary = Some (includeSummary fork), opt_workflowId = workflowId fork\<rparr>" st]
  by (auto simp: retryFork_create_def split: prod.splits sum.splits)

lemma retryFork_create_creates:
  "\<not> lookup_throws env (agent fork) \<Longrightarrow> \<exists>f. fst (retryFork_create env now fork st) = Inr f"
  using createLocalFork_creates [of env "agent fork" now "modelTier fork" "task fork"
          "\<lparr>opt_includeSummary = Some (includeSummary fork), opt_workflowId = workflowId fork\<rparr>" st]
  by (auto simp: retryFork_create_def split: prod.splits sum.splits)

text \<open>
  Claim C6, as amended. Take any registry reached from the initial state by the client's
  launches, retries, cancellations, events, ticks, refreshes and edits, where the ids the
  Gateway supplied (in answers to create requests and in fetched lists) do not begin with
  the placeholder prefix \<open>local-\<close>, and where the id counter is still below 2^53. Then
  \<^verbatim>\<open>retryFork\<close> on a fork of the merged view creates a queued fork whose id differs from
  the original's and whose agent, modelTier, task, includeSummary and workflowId are the
  original's; the new fork is put in front of the local registry, and every record that
  was there or in the Gateway-side list stays as it was, also after the launch that
  follows. \<^verbatim>\<open>retryFork\<close> does not read the status, so this holds in particular for failed
  and cancelled forks. A fork is created unless the lookup of the original's agent in the
  agent table throws; then the call ends with the error and both lists as they were.
\<close>

theorem retryFork_fresh_copy:
  assumes "gateway_ids_clean env"
    and "list_all (\<lambda>timed. fetched_ids_clean (snd timed)) acts"
    and "st = run_actions env acts (initial_state t0)"
    and "forkIdCounter st < 9007199254740992"
    and "fork \<in> set (allForks t st)"
  shows "(fst (retryFork_create env now fork st) = Inr newFork \<longrightarrow>
            fork_id newFork \<noteq> fork_id fork
          \<and> status newFork = Queued
          \<and> agent newFork = agent fork
          \<and> modelTier newFork = modelTier fork
          \<and> task newFork = task fork
          \<and> includeSummary newFork = includeSummary fork
          \<and> workflowId newFork = workflowId fork
          \<and> localForks (snd (retryFork_create env now fork st)) = newFork # localForks st
          \<and> apiForks (snd (retryFork_create env now fork st)) = apiForks st
          \<and> tl (localForks (fst (retryFork env now fork st))) = localForks st
          \<and> suffix (apiForks st) (apiForks (fst (retryFork env now fork st))))
     \<and> (\<not> lookup_throws env (agent fork) \<longrightarrow> (\<exists>f. fst (retryFork_create env now fork st) = Inr f))
     \<and> (lookup_throws env (agent fork) \<longrightarrow>
            snd (retryFork env now fork st) = Inl TypeError
          \<and> localForks (fst (retryFork env now fork st)) = localForks st
          \<and> apiForks (fst (retryFork env now fork st)) = apiForks st)"
proof (intro conjI impI)
  have inv: "placeholders_fresh st"
    unfolding assms(3)
    by (rule run_actions_fresh [OF assms(1,2) placeholders_fresh_initial])
       (use assms(3,4) in simp)
  {
    assume "\<not> lookup_throws env (agent fork)"
    then show "\<exists>f. fst (retryFork_create env now fork st) = Inr f"
      by (rule retryFork_create_creates)
  }
  {
    assume th: "lookup_throws env (agent fork)"
    have r: "retryFork env now fork st = (st\<lparr>forkIdCounter := next_counter (forkIdCounter st)\<rparr>, Inl TypeError)"
      using retryFork_create_throws [OF th, of now st] by (simp add: retryFork_def)
    show "snd (retryFork env now fork st) = Inl TypeError" using r by simp
    show "localForks (fst (retryFork env now fork st)) = localForks st" using r by simp
    show "apiForks (fst (retryFork env now fork st)) = apiForks st" using r by simp
  }
  assume cr: "fst (retryFork_create env now fork st) = Inr newFork"
  note c = retryFork_create_Inr [OF cr]
  obtain st1 where c1: "retryFork_create env now fork st = (Inr newFork, st1)"
    using cr by (cases "retryFork_create env now fork st") simp
  have l1: "localForks st1 = newFork # localForks st" and a1: "apiForks st1 = apiForks st"
    using c c1 by simp_all
  have idn: "fork_id newFork = local_id (forkIdCounter st)" using c by simp
  have fresh: "fork_id newFork \<notin> fork_id ` set (localForks st)"
    using placeholders_fresh_local [OF inv] idn by simp
  obtain st2 req where l: "launchFork env st (now + 300) newFork st1 = (st2, req)"
    by (cases "launchFork env st (now + 300) newFork st1")
  have r: "fst (retryFork env now fork st) = st2"
    using c1 l by (simp add: retryFork_def)
  show "fork_id newFork \<noteq> fork_id fork"
    using placeholders_fresh_next [OF inv assms(5)] idn by simp
  show "tl (localForks (fst (retryFork env now fork st))) = localForks st"
    using launchFork_tail(1) [OF fresh l1, of env st "now + 300"] r l by simp
  show "suffix (apiForks st) (apiForks (fst (retryFork env now fork st)))"
    using launchFork_tail(2) [OF fresh l1, of env st "now + 300"] r l a1 by simp
  show "status newFork = Queued" "agent newFork = agent fork" "modelTier newFork = modelTier fork"
    "task newFork = task fork" "includeSummary newFork = includeSummary fork"
    "workflowId newFork = workflowId fork"
    "localForks (snd (retryFork_create env now fork st)) = newFork # localForks st"
    "apiForks (snd (retryFork_create env now fork st)) = apiForks st"
    using c by simp_all
qed

lemma example_run:
  "map fork_id (localForks (run_actions example_env
      [(0, SetLaunchPanel ''claude'' TierDefault ''7'' False), (1, LaunchSingle),
       (400, Perform (CancelFork ''fork-7''))] (initial_state 0))) = [''fork-7'']
   \<and> map status (localForks (run_actions example_env
      [(0, SetLaunchPanel ''claude'' TierDefault ''7'' False), (1, LaunchSingle),
       (400, Perform (CancelFork ''fork-7''))] (initial_state 0))) = [Cancelled]
   \<and> map task (localForks (run_actions example_env
      [(0, SetLaunchPanel ''claude'' TierDefault ''7'' False), (1, LaunchSingle),
       (400, Perform (CancelFork ''fork-7''))] (initial_state 0))) = [''7'']
   \<and> forkIdCounter (run_actions example_env
      [(0, SetLaunchPanel ''claude'' TierDefault ''7'' False), (1, LaunchSingle),
       (400, Perform (CancelFork ''fork-7''))] (initial_state 0)) = 2"
  by (simp add: launchSingleFork_def launchSingleFork_create_def launchFork_def launchFork_begin_def
      launchFork_resolve_def model_name_def next_counter_def ascii_white_space_def wide_white_space_def
      apiCreateFork_def createLocalFork_def canLaunchFork_def is_active_def cancelFork_def terminateFork_def
      addTerminalLine_def request_of_def initial_state_def example_env_def example_fork_def Let_def)

lemma example_env_clean: "gateway_ids_clean example_env"
  by (simp add: gateway_ids_clean_def example_env_def example_fork_def has_local_prefix_def)

theorem retryFork_fresh_copy_witness:
  "map status (localForks (run_actions example_env
      [(0, SetLaunchPanel ''claude'' TierDefault ''7'' False), (1, LaunchSingle),
       (400, Perform (CancelFork ''fork-7''))] (initial_state 0))) = [Cancelled]
   \<and> (\<exists>f. fst (retryFork_create example_env 900
              (hd (localForks (run_actions example_env
                 [(0, SetLaunchPanel ''claude'' TierDefault ''7'' False), (1, LaunchSingle),
                  (400, Perform (CancelFork ''fork-7''))] (initial_state 0))))
              (run_actions example_env
                 [(0, SetLaunchPanel ''claude'' TierDefault ''7'' False), (1, LaunchSingle),
                  (400, Perform (CancelFork ''fork-7''))] (initial_state 0))) = Inr f
          \<and> fork_id f \<noteq> ''fork-7'' \<and> task f = ''7'')"
proof -
  let ?acts = "[(0::int, SetLaunchPanel ''claude'' TierDefault ''7'' False), (1, LaunchSingle),
                (400, Perform (CancelFork ''fork-7''))]"
  let ?st = "run_actions example_env ?acts (initial_state 0)"
  let ?fork = "hd (localForks ?st)"
  note ev = example_run
  have ne: "localForks ?st \<noteq> []" using ev by auto
  have idf: "fork_id ?fork = ''fork-7''" and tf: "task ?fork = ''7''"
    using ev ne by (cases "localForks ?st"; simp)+
  have mem: "?fork \<in> set (allForks 900 ?st)"
    using ne by (simp add: allForks_def)
  have fc: "list_all (\<lambda>timed. fetched_ids_clean (snd timed)) ?acts" by simp
  have b: "forkIdCounter ?st < 9007199254740992" using ev by simp
  have nt: "\<not> lookup_throws example_env (agent ?fork)"
    by (simp add: lookup_throws_def example_env_def)
  note inst = retryFork_fresh_copy [OF example_env_clean fc refl b mem, of 900]
  obtain f where f: "fst (retryFork_create example_env 900 ?fork ?st) = Inr f"
    using inst nt by blast
  have "fork_id f \<noteq> fork_id ?fork" and "task f = task ?fork"
    using inst [of f] f by simp_all
  then show ?thesis using ev f idf tf by auto
qed

text \<open>
  The claim as stated fails. With a Gateway that answers the create request of the first
  launch with the id \<open>local-2\<close>, the launched fork carries that id; cancelled and then
  retried, it gets a successor with the same id, since \<open>local-2\<close> is the placeholder the
  counter issues next.
\<close>

theorem retryFork_reuses_placeholder_id:
  "map status (localForks (cancelFork placeholder_env 400 ''local-2''
      (fst (launchSingleFork placeholder_env 0 (initial_state 0\<lparr>promptInput := ''7''\<rparr>))))) = [Cancelled]
   \<and> map fork_id (localForks (cancelFork placeholder_env 400 ''local-2''
      (fst (launchSingleFork placeholder_env 0 (initial_state 0\<lparr>promptInput := ''7''\<rparr>))))) = [''local-2'']
   \<and> map_sum id fork_id (fst (retryFork_create placeholder_env 900
        (hd (localForks (cancelFork placeholder_env 400 ''local-2''
           (fst (launchSingleFork placeholder_env 0 (initial_state 0\<lparr>promptInput := ''7''\<rparr>))))))
        (cancelFork placeholder_env 400 ''local-2''
           (fst (launchSingleFork placeholder_env 0 (initial_state 0\<lparr>promptInput := ''7''\<rparr>))))))
     = Inr ''local-2''"
  by (simp add: launchSingleFork_def launchSingleFork_create_def launchFork_def launchFork_begin_def
      launchFork_resolve_def model_name_def next_counter_def ascii_white_space_def wide_white_space_def
      apiCreateFork_def createLocalFork_def canLaunchFork_def is_active_def cancelFork_def terminateFork_def
      retryFork_create_def local_id_def string_of_nat.simps digit_char_def char_of_def bit_iff_odd
      addTerminalLine_def request_of_def initial_state_def example_env_def placeholder_env_def
      example_fork_def Let_def)


end
